theory Spec2Isabelle
  imports
    Complex_Main
    "HOL-Library.AList"
    "HOL-Library.Char_ord"
    "HOL-Library.List_Lexorder"
    "HOL-Library.Product_Lexorder"
    "HOL-Library.Sublist"
begin

section \<open>Python values and exceptions\<close>

text \<open>
  The values a section can hold. A Python \<open>dict\<close> keeps its keys in insertion order, so
  it is an association list with distinct keys (keys are strings, as the keys of a
  loaded input file are). A \<open>float\<close> is carried by the rational it denotes; no
  arithmetic on floats is modelled. \<open>PObject\<close> stands for any object that is neither a
  native scalar nor a \<open>list\<close>, \<open>tuple\<close> or \<open>dict\<close> (a numpy array, say).
\<close>

datatype pyval =
    PNone
  | PBool bool
  | PInt int
  | PFloat rat
  | PStr string
  | PList "pyval list"
  | PTuple "pyval list"
  | PDict "(string \<times> pyval) list"
  | PObject nat

type_synonym pydict = "(string \<times> pyval) list"

datatype error =
    UnknownSectionException string
  | KeyError string
  | IndexError
  | TypeError string
  | ValueError string
  | NotImplementedError string
  | ValidationError string
  | MalformedRecordError string

text \<open>\<open>isinstance(v, dict)\<close> and \<open>isinstance(v, list)\<close>.\<close>

fun is_dict :: "pyval \<Rightarrow> bool" where
  "is_dict (PDict _) = True"
| "is_dict _ = False"

fun is_list :: "pyval \<Rightarrow> bool" where
  "is_list (PList _) = True"
| "is_list _ = False"

text \<open>
  \<open>isinstance(v, collections.abc.Sequence)\<close>: lists, tuples and strings are sequences;
  \<open>iter_sequence\<close> gives the elements an iteration over one yields (a string yields its
  characters as one-character strings).
\<close>

fun is_Sequence :: "pyval \<Rightarrow> bool" where
  "is_Sequence (PList _) = True"
| "is_Sequence (PTuple _) = True"
| "is_Sequence (PStr _) = True"
| "is_Sequence _ = False"

fun iter_sequence :: "pyval \<Rightarrow> pyval list" where
  "iter_sequence (PList xs) = xs"
| "iter_sequence (PTuple xs) = xs"
| "iter_sequence (PStr s) = map (\<lambda>c. PStr [c]) s"
| "iter_sequence (PDict kvs) = map (\<lambda>kv. PStr (fst kv)) kvs"
| "iter_sequence _ = []"

subsection \<open>Ordered dictionaries\<close>

text \<open>
  \<open>d[k] = v\<close> is \<^const>\<open>AList.update\<close>: an existing key keeps its position, a new key
  goes to the end. \<open>d.pop(k)\<close> is \<^const>\<open>AList.delete\<close>, \<open>d[k]\<close> is \<^const>\<open>map_of\<close>,
  \<open>list(d)\<close> is \<open>map fst\<close>. \<open>a | b\<close> copies \<open>a\<close> and then stores every item of \<open>b\<close>, in
  the order of \<open>b\<close>.
\<close>

definition dict_keys :: "pydict \<Rightarrow> string list" where
  "dict_keys d = map fst d"

definition dict_union :: "pydict \<Rightarrow> pydict \<Rightarrow> pydict" where
  "dict_union a b = fold (\<lambda>kv. AList.update (fst kv) (snd kv)) b a"

text \<open>\<open>sep.join(xs)\<close>, and a name between single quotes as the messages print it.\<close>

fun join :: "string \<Rightarrow> string list \<Rightarrow> string" where
  "join sep [] = []"
| "join sep [x] = x"
| "join sep (x # y # ys) = x @ sep @ join sep (y # ys)"

definition quoted :: "string \<Rightarrow> string" where
  "quoted s = [CHR 0x27] @ s @ [CHR 0x27]"

text \<open>\<open>str.upper\<close>, on ASCII letters.\<close>

definition upper_char :: "char \<Rightarrow> char" where
  "upper_char c = (if CHR ''a'' \<le> c \<and> c \<le> CHR ''z'' then char_of (of_char c - (32::nat)) else c)"

definition upper :: "string \<Rightarrow> string" where
  "upper s = map upper_char s"

section \<open>The standard library's \<open>difflib.get_close_matches\<close>\<close>

text \<open>
  \<open>SequenceMatcher(isjunk=None, autojunk=True)\<close> with \<open>a\<close> the candidate and \<open>b\<close> the
  word. With no junk predicate the junk set is empty; the automatic heuristic drops
  from the index \<open>b2j\<close> every character that occurs more than \<open>n // 100 + 1\<close> times in a
  word of \<open>n \<ge> 200\<close> characters.
\<close>

definition bpopular :: "string \<Rightarrow> char list" where
  "bpopular b =
     (let n = length b in
      if n \<ge> 200 then filter (\<lambda>c. count_list b c > n div 100 + 1) (remdups b) else [])"

definition b2j_get :: "string \<Rightarrow> char \<Rightarrow> nat list" where
  "b2j_get b c =
     (if c \<in> set (bpopular b) then [] else filter (\<lambda>j. b ! j = c) [0..<length b])"

type_synonym match = "nat \<times> nat \<times> nat"

text \<open>
  The two nested loops of \<open>find_longest_match\<close>. \<open>j2len\<close> maps \<open>j\<close> to the length of the
  longest match ending with \<open>a[i-1]\<close> and \<open>b[j]\<close>; the lookup \<open>j2len.get(j-1, 0)\<close> at
  \<open>j = 0\<close> asks for key \<open>-1\<close>, which is never there.
\<close>

fun inner_loop ::
  "nat \<Rightarrow> nat \<Rightarrow> nat \<Rightarrow> (nat \<rightharpoonup> nat) \<Rightarrow> nat list \<Rightarrow> match \<times> (nat \<rightharpoonup> nat) \<Rightarrow> match \<times> (nat \<rightharpoonup> nat)"
where
  "inner_loop i blo bhi j2len [] st = st"
| "inner_loop i blo bhi j2len (j # js) (best, newj2len) =
     (if j < blo then inner_loop i blo bhi j2len js (best, newj2len)
      else if j \<ge> bhi then (best, newj2len)
      else
        let k = (case (if j = 0 then None else j2len (j - 1)) of None \<Rightarrow> 0 | Some x \<Rightarrow> x) + 1;
            best' = (if k > snd (snd best) then (i + 1 - k, j + 1 - k, k) else best)
        in inner_loop i blo bhi j2len js (best', newj2len(j \<mapsto> k)))"

fun outer_loop ::
  "string \<Rightarrow> string \<Rightarrow> nat \<Rightarrow> nat \<Rightarrow> nat list \<Rightarrow> match \<times> (nat \<rightharpoonup> nat) \<Rightarrow> match"
where
  "outer_loop a b blo bhi [] (best, j2len) = best"
| "outer_loop a b blo bhi (i # is) (best, j2len) =
     outer_loop a b blo bhi is
       (inner_loop i blo bhi j2len (b2j_get b (a ! i)) (best, Map.empty))"

text \<open>
  The two \<open>while\<close> loops that extend the best match by non-junk elements on each end.
  (The two loops after them extend by junk elements and never run: the junk set is
  empty.)
\<close>

function extend_left :: "string \<Rightarrow> string \<Rightarrow> nat \<Rightarrow> nat \<Rightarrow> match \<Rightarrow> match" where
  "extend_left a b alo blo (besti, bestj, bestsize) =
     (if besti > alo \<and> bestj > blo \<and> a ! (besti - 1) = b ! (bestj - 1)
      then extend_left a b alo blo (besti - 1, bestj - 1, bestsize + 1)
      else (besti, bestj, bestsize))"
  by pat_completeness auto
termination
  by (relation "measure (\<lambda>(a, b, alo, blo, besti, bestj, bestsize). besti)") auto

declare extend_left.simps [simp del]

function extend_right :: "string \<Rightarrow> string \<Rightarrow> nat \<Rightarrow> nat \<Rightarrow> match \<Rightarrow> match" where
  "extend_right a b ahi bhi (besti, bestj, bestsize) =
     (if besti + bestsize < ahi \<and> bestj + bestsize < bhi
         \<and> a ! (besti + bestsize) = b ! (bestj + bestsize)
      then extend_right a b ahi bhi (besti, bestj, bestsize + 1)
      else (besti, bestj, bestsize))"
  by pat_completeness auto
termination
  by (relation "measure (\<lambda>(a, b, ahi, bhi, besti, bestj, bestsize). ahi - (besti + bestsize))") auto

declare extend_right.simps [simp del]

definition find_longest_match :: "string \<Rightarrow> string \<Rightarrow> nat \<Rightarrow> nat \<Rightarrow> nat \<Rightarrow> nat \<Rightarrow> match" where
  "find_longest_match a b alo ahi blo bhi =
     extend_right a b ahi bhi
       (extend_left a b alo blo
          (outer_loop a b blo bhi [alo..<ahi] ((alo, blo, 0), Map.empty)))"

text \<open>
  Bounds on the match found, needed for the termination of the loop of
  \<open>get_matching_blocks\<close>.
\<close>

lemma inner_loop_bound:
  "inner_loop i blo bhi j2len js (best, new) = (best', new') \<Longrightarrow>
   (\<forall>j v. j2len j = Some v \<longrightarrow> v \<le> i - alo) \<Longrightarrow>
   (\<forall>j v. new j = Some v \<longrightarrow> v \<le> Suc (i - alo)) \<Longrightarrow>
   alo \<le> i \<Longrightarrow>
   alo \<le> fst best \<and> fst best + snd (snd best) \<le> Suc i \<Longrightarrow>
   (alo \<le> fst best' \<and> fst best' + snd (snd best') \<le> Suc i)
     \<and> (\<forall>j v. new' j = Some v \<longrightarrow> v \<le> Suc (i - alo))"
proof (induction js arbitrary: best new)
  case Nil
  then show ?case by simp
next
  case (Cons j js)
  show ?case
  proof (cases "j < blo")
    case True
    then have step: "inner_loop i blo bhi j2len js (best, new) = (best', new')"
      using Cons.prems(1) by simp
    show ?thesis
      by (rule Cons.IH [OF step Cons.prems(2) Cons.prems(3) Cons.prems(4) Cons.prems(5)])
  next
    case nlo: False
    show ?thesis
    proof (cases "j \<ge> bhi")
      case True
      with nlo Cons.prems show ?thesis by simp
    next
      case False
      define k where "k = (case (if j = 0 then None else j2len (j - 1)) of None \<Rightarrow> 0 | Some x \<Rightarrow> x) + 1"
      have kb: "k \<le> Suc (i - alo)"
        using Cons.prems(2) by (auto simp: k_def split: option.splits)
      define bst where "bst = (if k > snd (snd best) then (i + 1 - k, j + 1 - k, k) else best)"
      have "inner_loop i blo bhi j2len (j # js) (best, new)
          = inner_loop i blo bhi j2len js (bst, new(j \<mapsto> k))"
        using nlo False by (simp add: k_def bst_def Let_def)
      then have step: "inner_loop i blo bhi j2len js (bst, new(j \<mapsto> k)) = (best', new')"
        using Cons.prems(1) by simp
      have b1: "alo \<le> fst bst \<and> fst bst + snd (snd bst) \<le> Suc i"
        using kb Cons.prems(4,5) by (auto simp: bst_def)
      have b2: "\<forall>j' v. (new(j \<mapsto> k)) j' = Some v \<longrightarrow> v \<le> Suc (i - alo)"
        using kb Cons.prems(3) by auto
      show ?thesis
        by (rule Cons.IH [OF step Cons.prems(2) b2 Cons.prems(4) b1])
    qed
  qed
qed

lemma outer_loop_bound:
  "(\<forall>j v. j2len j = Some v \<longrightarrow> v \<le> lo - alo) \<Longrightarrow>
   alo \<le> fst best \<and> fst best + snd (snd best) \<le> lo \<Longrightarrow> lo \<le> ahi \<Longrightarrow> alo \<le> lo \<Longrightarrow>
   outer_loop a b blo bhi [lo..<ahi] (best, j2len) = r \<Longrightarrow>
   alo \<le> fst r \<and> fst r + snd (snd r) \<le> ahi"
proof (induction "ahi - lo" arbitrary: lo best j2len)
  case 0
  then show ?case by simp
next
  case (Suc n)
  then have lt: "lo < ahi" by simp
  obtain best' new' where il: "inner_loop lo blo bhi j2len (b2j_get b (a ! lo)) (best, Map.empty) = (best', new')"
    by (cases "inner_loop lo blo bhi j2len (b2j_get b (a ! lo)) (best, Map.empty)") auto
  have bb: "(alo \<le> fst best' \<and> fst best' + snd (snd best') \<le> Suc lo)
      \<and> (\<forall>j v. new' j = Some v \<longrightarrow> v \<le> Suc (lo - alo))"
    by (rule inner_loop_bound [OF il Suc.prems(1) _ Suc.prems(4)]) (use Suc.prems(2) in auto)
  have r: "outer_loop a b blo bhi [Suc lo..<ahi] (best', new') = r"
    using Suc.prems(5) lt il by (simp add: upt_conv_Cons)
  have n: "n = ahi - Suc lo" using Suc.hyps(2) by simp
  have sd: "Suc (lo - alo) = Suc lo - alo" using Suc.prems(4) by simp
  show ?case
    by (rule Suc.hyps(1) [OF n _ _ _ _ r]) (use bb lt Suc.prems(4) sd in auto)
qed

lemma extend_left_sum:
  "extend_left a b alo blo m = r \<Longrightarrow> alo \<le> fst m \<Longrightarrow>
   alo \<le> fst r \<and> fst r + snd (snd r) = fst m + snd (snd m)"
proof (induction a b alo blo m arbitrary: r rule: extend_left.induct)
  case (1 a b alo blo besti bestj bestsize)
  show ?case
  proof (cases "besti > alo \<and> bestj > blo \<and> a ! (besti - 1) = b ! (bestj - 1)")
    case True
    then have "extend_left a b alo blo (besti - 1, bestj - 1, bestsize + 1) = r"
      using "1.prems"(1) by (subst (asm) extend_left.simps) simp
    from "1.IH" [OF True this] True show ?thesis by auto
  next
    case False
    then have "r = (besti, bestj, bestsize)"
      using "1.prems"(1) by (subst (asm) extend_left.simps) auto
    then show ?thesis using "1.prems"(2) by simp
  qed
qed

lemma extend_right_sum:
  "extend_right a b ahi bhi m = r \<Longrightarrow> fst m + snd (snd m) \<le> ahi \<Longrightarrow>
   fst r = fst m \<and> fst r + snd (snd r) \<le> ahi"
proof (induction a b ahi bhi m arbitrary: r rule: extend_right.induct)
  case (1 a b ahi bhi besti bestj bestsize)
  show ?case
  proof (cases "besti + bestsize < ahi \<and> bestj + bestsize < bhi
         \<and> a ! (besti + bestsize) = b ! (bestj + bestsize)")
    case True
    then have "extend_right a b ahi bhi (besti, bestj, bestsize + 1) = r"
      using "1.prems"(1) by (subst (asm) extend_right.simps) simp
    from "1.IH" [OF True this] True show ?thesis by auto
  next
    case False
    then have "r = (besti, bestj, bestsize)"
      using "1.prems"(1) by (subst (asm) extend_right.simps) auto
    then show ?thesis using "1.prems"(2) by simp
  qed
qed

lemma find_longest_match_bound:
  assumes "alo \<le> ahi" and "find_longest_match a b alo ahi blo bhi = (i, j, k)"
  shows "alo \<le> i \<and> i + k \<le> ahi"
proof -
  define m0 where "m0 = outer_loop a b blo bhi [alo..<ahi] ((alo, blo, 0), Map.empty)"
  define m1 where "m1 = extend_left a b alo blo m0"
  have r: "extend_right a b ahi bhi m1 = (i, j, k)"
    using assms(2) by (simp add: find_longest_match_def m0_def m1_def)
  have b0: "alo \<le> fst m0 \<and> fst m0 + snd (snd m0) \<le> ahi"
    by (rule outer_loop_bound [where lo = alo and best = "(alo, blo, 0)" and ?j2len = Map.empty])
       (use assms(1) in \<open>simp_all add: m0_def\<close>)
  have b1: "alo \<le> fst m1 \<and> fst m1 + snd (snd m1) = fst m0 + snd (snd m0)"
    by (rule extend_left_sum) (use b0 in \<open>simp_all add: m1_def\<close>)
  have b2: "fst (i, j, k) = fst m1 \<and> fst (i, j, k) + snd (snd (i, j, k)) \<le> ahi"
    by (rule extend_right_sum [OF r]) (use b0 b1 in simp)
  show ?thesis using b1 b2 by simp
qed

lemma find_longest_match_range:
  assumes "(i, j, k) = find_longest_match a b alo ahi blo bhi"
  shows "alo \<le> i \<and> (k = 0 \<or> i + k \<le> ahi)"
proof (cases "alo \<le> ahi")
  case True
  then show ?thesis using find_longest_match_bound [OF True assms [symmetric]] by simp
next
  case False
  then have "find_longest_match a b alo ahi blo bhi = (alo, blo, 0)"
    by (simp add: find_longest_match_def extend_left.simps extend_right.simps)
  then show ?thesis using assms by simp
qed

text \<open>
  \<open>get_matching_blocks\<close>: the work list is a stack (\<open>queue.pop()\<close> takes the range
  appended last); afterwards the blocks are sorted, adjacent blocks are collapsed and
  the sentinel \<open>(la, lb, 0)\<close> is appended.
\<close>

function matching_loop ::
  "string \<Rightarrow> string \<Rightarrow> (nat \<times> nat \<times> nat \<times> nat) list \<Rightarrow> match list \<Rightarrow> match list"
where
  "matching_loop a b [] blocks = blocks"
| "matching_loop a b ((alo, ahi, blo, bhi) # queue) blocks =
     (case find_longest_match a b alo ahi blo bhi of (i, j, k) \<Rightarrow>
        if k \<noteq> 0 then
          matching_loop a b
            ((if i + k < ahi \<and> j + k < bhi then [(i + k, ahi, j + k, bhi)] else [])
               @ (if alo < i \<and> blo < j then [(alo, i, blo, j)] else []) @ queue)
            (blocks @ [(i, j, k)])
        else matching_loop a b queue blocks)"
  by pat_completeness auto
termination
  apply (relation "measure (\<lambda>(a, b, queue, blocks).
           sum_list (map (\<lambda>(alo, ahi, blo, bhi). 2 * (ahi - alo) + 1) queue))")
   apply simp
  apply (auto dest: find_longest_match_range)
  done

fun collapse_loop :: "match list \<Rightarrow> match \<times> match list \<Rightarrow> match \<times> match list" where
  "collapse_loop [] st = st"
| "collapse_loop ((i2, j2, k2) # rest) ((i1, j1, k1), non_adjacent) =
     (if i1 + k1 = i2 \<and> j1 + k1 = j2
      then collapse_loop rest ((i1, j1, k1 + k2), non_adjacent)
      else collapse_loop rest
             ((i2, j2, k2), if k1 \<noteq> 0 then non_adjacent @ [(i1, j1, k1)] else non_adjacent))"

definition get_matching_blocks :: "string \<Rightarrow> string \<Rightarrow> match list" where
  "get_matching_blocks a b =
     (let la = length a; lb = length b;
          matching_blocks = sort (matching_loop a b [(0, la, 0, lb)] [])
      in case collapse_loop matching_blocks ((0, 0, 0), []) of
           ((i1, j1, k1), non_adjacent) \<Rightarrow>
             (if k1 \<noteq> 0 then non_adjacent @ [(i1, j1, k1)] else non_adjacent) @ [(la, lb, 0)])"

text \<open>
  The three similarity measures. A ratio is \<open>2.0 * matches / length\<close>, a float; it is
  carried here by the rational it rounds. (Rounding is monotone and \<open>0.3\<close> is the float
  nearest \<open>3/10\<close>, so the comparisons below decide as the floats do for strings of any
  realistic length.)
\<close>

definition calculate_ratio :: "nat \<Rightarrow> nat \<Rightarrow> rat" where
  "calculate_ratio matches len = (if len \<noteq> 0 then 2 * of_nat matches / of_nat len else 1)"

definition ratio :: "string \<Rightarrow> string \<Rightarrow> rat" where
  "ratio a b =
     calculate_ratio (sum_list (map (\<lambda>triple. snd (snd triple)) (get_matching_blocks a b)))
       (length a + length b)"

fun quick_ratio_loop :: "string \<Rightarrow> string \<Rightarrow> (char \<rightharpoonup> int) \<times> nat \<Rightarrow> (char \<rightharpoonup> int) \<times> nat" where
  "quick_ratio_loop b [] st = st"
| "quick_ratio_loop b (elt # rest) (avail, matches) =
     (let numb = (case avail elt of Some n \<Rightarrow> n | None \<Rightarrow> int (count_list b elt))
      in quick_ratio_loop b rest
           (avail(elt \<mapsto> numb - 1), if numb > 0 then matches + 1 else matches))"

definition quick_ratio :: "string \<Rightarrow> string \<Rightarrow> rat" where
  "quick_ratio a b =
     calculate_ratio (snd (quick_ratio_loop b a (Map.empty, 0))) (length a + length b)"

definition real_quick_ratio :: "string \<Rightarrow> string \<Rightarrow> rat" where
  "real_quick_ratio a b =
     calculate_ratio (min (length a) (length b)) (length a + length b)"

text \<open>
  \<open>get_close_matches(word, possibilities, n, cutoff)\<close>: the candidates that pass the
  three tests, the \<open>n\<close> best of them first (\<open>heapq.nlargest\<close> on the pairs of score and
  candidate).
\<close>

definition get_close_matches :: "string \<Rightarrow> string list \<Rightarrow> int \<Rightarrow> rat \<Rightarrow> error + string list" where
  "get_close_matches word possibilities n cutoff =
     (if \<not> n > 0 then Inl (ValueError ''n must be > 0'')
      else if \<not> (0 \<le> cutoff \<and> cutoff \<le> 1) then Inl (ValueError ''cutoff must be in [0.0, 1.0]'')
      else
        let result =
              map (\<lambda>x. (ratio x word, x))
                (filter (\<lambda>x. real_quick_ratio x word \<ge> cutoff \<and> quick_ratio x word \<ge> cutoff
                              \<and> ratio x word \<ge> cutoff) possibilities)
        in Inr (map snd (take (nat n) (rev (sort result)))))"

section \<open>The catalog and the collaborators of the input file object\<close>

text \<open>
  The module \<open>fourcipp\<close> (the constants \<open>SECTIONS\<close>, \<open>LEGACY_SECTIONS\<close>, \<open>ALL_SECTIONS\<close>
  and \<open>CONFIG\<close>), the \<open>Converter\<close> class, the record codecs of \<open>fourcipp.legacy_io\<close> and
  the JSON schema engine are not among the sources: they are parameters of the model.
  A collaborator that can raise returns a sum, the exception on the left.
\<close>

record env =
  SECTIONS :: "string list"
  LEGACY_SECTIONS :: "string list"
  ALL_SECTIONS :: "string list"
  type_converter :: "pyval \<Rightarrow> error + pyval"
  read_particle :: "pyval \<Rightarrow> error + pyval"
  read_node :: "pyval \<Rightarrow> error + pyval"
  read_element :: "pyval \<Rightarrow> error + pyval"
  read_node_topology :: "pyval \<Rightarrow> error + pyval"
  read_domain :: "pyval list \<Rightarrow> error + pyval"
  read_knotvectors :: "pyval list \<Rightarrow> error + pyval"
  write_particle :: "pyval \<Rightarrow> error + pyval"
  write_node :: "pyval \<Rightarrow> error + pyval"
  write_element :: "pyval \<Rightarrow> error + pyval"
  write_node_topology :: "pyval \<Rightarrow> error + pyval"
  write_domain :: "pyval \<Rightarrow> error + pyval"
  write_knotvectors :: "pyval \<Rightarrow> error + pyval"
  json_schema :: pydict
  jsonschema_validate :: "pydict \<Rightarrow> pydict \<Rightarrow> error option"

section \<open>Legacy sections\<close>

text \<open>\<open>[function(line) for line in iterable]\<close>: the first line that raises ends the loop.\<close>

fun iterate_and_evaluate :: "(pyval \<Rightarrow> error + pyval) \<Rightarrow> pyval list \<Rightarrow> error + pyval list" where
  "iterate_and_evaluate function [] = Inr []"
| "iterate_and_evaluate function (line # rest) =
     (case function line of
        Inl e \<Rightarrow> Inl e
      | Inr r \<Rightarrow>
          (case iterate_and_evaluate function rest of
             Inl e \<Rightarrow> Inl e
           | Inr rs \<Rightarrow> Inr (r # rs)))"

definition as_list :: "error + pyval list \<Rightarrow> error + pyval" where
  "as_list r = (case r of Inl e \<Rightarrow> Inl e | Inr xs \<Rightarrow> Inr (PList xs))"

text \<open>
  In the words of the spec: a line-per-record codec decodes every line of a section to
  one record, and a line that does not decode aborts the interpretation of the section
  with that line's error. \<open>decode_lines\<close> says so without the loop: the error of the
  first line that fails, or else the list of the records of all lines.
\<close>

definition decode_lines :: "(pyval \<Rightarrow> error + pyval) \<Rightarrow> pyval list \<Rightarrow> error + pyval" where
  "decode_lines decode lines =
     (case find (\<lambda>l. isl (decode l)) lines of
        Some l \<Rightarrow> Inl (projl (decode l))
      | None \<Rightarrow> Inr (PList (map (\<lambda>l. projr (decode l)) lines)))"

definition interpret_legacy_section :: "env \<Rightarrow> string \<Rightarrow> pyval list \<Rightarrow> error + pyval" where
  "interpret_legacy_section env legacy_section section_data =
     (if legacy_section \<notin> set (LEGACY_SECTIONS env) then
        Inl (ValueError (''Section '' @ legacy_section
               @ '' is not a known legacy section. Current legacy sections are ''
               @ join '', '' (LEGACY_SECTIONS env)))
      else if legacy_section = ''PARTICLES'' then
        as_list (iterate_and_evaluate (read_particle env) section_data)
      else if legacy_section = ''NODE COORDS'' then
        as_list (iterate_and_evaluate (read_node env) section_data)
      else if suffix ''ELEMENTS'' legacy_section then
        as_list (iterate_and_evaluate (read_element env) section_data)
      else if suffix ''NODE TOPOLOGY'' legacy_section then
        as_list (iterate_and_evaluate (read_node_topology env) section_data)
      else if suffix ''DOMAIN'' legacy_section then
        read_domain env section_data
      else if suffix ''KNOTVECTORS'' legacy_section then
        read_knotvectors env section_data
      else
        Inl (NotImplementedError (''Legacy section '' @ legacy_section @ '' is not implemented.'')))"

definition inline_legacy_section :: "env \<Rightarrow> string \<Rightarrow> pyval \<Rightarrow> error + pyval" where
  "inline_legacy_section env legacy_section section_data =
     (if legacy_section = ''PARTICLES'' then
        (if \<not> is_Sequence section_data
         then Inl (TypeError ''Expected the section data to be of type list.'')
         else as_list (iterate_and_evaluate (write_particle env) (iter_sequence section_data)))
      else if legacy_section = ''NODE COORDS'' then
        (if \<not> is_Sequence section_data
         then Inl (TypeError ''Expected the section data to be of type list.'')
         else as_list (iterate_and_evaluate (write_node env) (iter_sequence section_data)))
      else if suffix ''ELEMENTS'' legacy_section then
        (if \<not> is_Sequence section_data
         then Inl (TypeError ''Expected the section data to be of type list.'')
         else as_list (iterate_and_evaluate (write_element env) (iter_sequence section_data)))
      else if suffix ''NODE TOPOLOGY'' legacy_section then
        (if \<not> is_Sequence section_data
         then Inl (TypeError ''Expected the section data to be of type list.'')
         else as_list (iterate_and_evaluate (write_node_topology env) (iter_sequence section_data)))
      else if suffix ''KNOTVECTORS'' legacy_section then
        (if \<not> is_Sequence section_data
         then Inl (TypeError ''Expected the section data to be of type list.'')
         else write_knotvectors env section_data)
      else if suffix ''DOMAIN'' legacy_section then
        (if \<not> is_dict section_data
         then Inl (TypeError ''Expected a dictionary for the section data.'')
         else write_domain env section_data)
      else
        Inl (ValueError (''Section '' @ legacy_section
               @ '' is not a known legacy section. Current legacy sections are ''
               @ join '', '' (LEGACY_SECTIONS env))))"

text \<open>
  \<open>inline_legacy_sections\<close> replaces the value of every key of the dictionary it is
  given, in the order of the keys, and returns that dictionary.
\<close>

fun inline_legacy_sections :: "env \<Rightarrow> pydict \<Rightarrow> error + pydict" where
  "inline_legacy_sections env [] = Inr []"
| "inline_legacy_sections env ((legacy_section, section) # rest) =
     (case inline_legacy_section env legacy_section section of
        Inl e \<Rightarrow> Inl e
      | Inr lines \<Rightarrow>
          (case inline_legacy_sections env rest of
             Inl e \<Rightarrow> Inl e
           | Inr rest' \<Rightarrow> Inr ((legacy_section, lines) # rest')))"

section \<open>The input file object\<close>

text \<open>
  \<open>FourCInput\<close> has two attributes, \<open>_sections\<close> and \<open>_legacy_sections\<close> (an Isabelle
  name cannot start with an underscore). Every method that changes the object takes it
  and returns it; a method that raises before it changes anything returns the exception
  alone. Calls of the logger are left out.
\<close>

record FourCInput =
  priv_sections :: pydict
  priv_legacy_sections :: pydict

definition is_section_known :: "env \<Rightarrow> string \<Rightarrow> bool" where
  "is_section_known env section_name =
     (section_name \<in> set (SECTIONS env) \<or> prefix ''FUNCT'' section_name)"

text \<open>
  The expression \<open>difflib.get_close_matches(key.upper(), names, n=1, cutoff=0.3)[0]\<close> of
  the four error messages: indexing an empty list of matches raises \<open>IndexError\<close>.
\<close>

definition closest_match :: "string \<Rightarrow> string list \<Rightarrow> error + string" where
  "closest_match key names =
     (case get_close_matches (upper key) names 1 (3 / 10) of
        Inl e \<Rightarrow> Inl e
      | Inr [] \<Rightarrow> Inl IndexError
      | Inr (m # _) \<Rightarrow> Inr m)"

definition unknown_section_message :: "string \<Rightarrow> string \<Rightarrow> string" where
  "unknown_section_message key m =
     ''Unknown section '' @ quoted key @ ''. Did you mean '' @ quoted m
       @ ''? Call FourCInputFile.known_sections for a complete list.''"

definition not_set_message :: "string \<Rightarrow> string \<Rightarrow> string" where
  "not_set_message key m =
     ''Section '' @ quoted key @ '' not set. Did out mean '' @ quoted m @ ''?''"

definition FourCInput_empty :: FourCInput where
  "FourCInput_empty = \<lparr>priv_sections = [], priv_legacy_sections = []\<rparr>"

definition sections :: "FourCInput \<Rightarrow> pydict" where
  "sections self = dict_union (priv_sections self) (priv_legacy_sections self)"

definition get_section_names :: "FourCInput \<Rightarrow> string list" where
  "get_section_names self =
     sort (dict_keys (priv_legacy_sections self) @ dict_keys (priv_sections self))"

definition items :: "FourCInput \<Rightarrow> pydict" where
  "items self = sections self"

definition contains :: "FourCInput \<Rightarrow> string \<Rightarrow> bool" where
  "contains self item =
     (item \<in> set (dict_keys (priv_legacy_sections self) @ dict_keys (priv_sections self)))"

definition setitem :: "env \<Rightarrow> FourCInput \<Rightarrow> string \<Rightarrow> pyval \<Rightarrow> error + FourCInput" where
  "setitem env self key value0 =
     (case type_converter env value0 of
        Inl e \<Rightarrow> Inl e
      | Inr v \<Rightarrow>
          if is_section_known env key then
            Inr (self\<lparr>priv_sections := AList.update key v (priv_sections self)\<rparr>)
          else if key \<in> set (LEGACY_SECTIONS env) then
            (case v of
               PList xs \<Rightarrow>
                 if \<not> list_ex is_dict xs then
                   (case interpret_legacy_section env key xs of
                      Inl e \<Rightarrow> Inl e
                    | Inr r \<Rightarrow>
                        Inr (self\<lparr>priv_legacy_sections :=
                                    AList.update key r (priv_legacy_sections self)\<rparr>))
                 else
                   Inr (self\<lparr>priv_legacy_sections :=
                               AList.update key v (priv_legacy_sections self)\<rparr>)
             | PDict _ \<Rightarrow>
                 Inr (self\<lparr>priv_legacy_sections :=
                             AList.update key v (priv_legacy_sections self)\<rparr>)
             | _ \<Rightarrow> Inl (TypeError (''Section '' @ key @ '' is not a list or dict.'')))
          else
            (case closest_match key (ALL_SECTIONS env) of
               Inl e \<Rightarrow> Inl e
             | Inr m \<Rightarrow> Inl (UnknownSectionException (unknown_section_message key m))))"

text \<open>
  What \<open>__setitem__\<close> does with the outcome of an interpretation: the exception is
  raised, or the records are stored under the name in \<open>_legacy_sections\<close>.
\<close>

definition store_legacy :: "FourCInput \<Rightarrow> string \<Rightarrow> error + pyval \<Rightarrow> error + FourCInput" where
  "store_legacy d n result =
     (case result of
        Inl e \<Rightarrow> Inl e
      | Inr r \<Rightarrow> Inr (d\<lparr>priv_legacy_sections := AList.update n r (priv_legacy_sections d)\<rparr>))"

definition getitem :: "env \<Rightarrow> FourCInput \<Rightarrow> string \<Rightarrow> error + pyval" where
  "getitem env self key =
     (if is_section_known env key then
        (case map_of (priv_sections self) key of
           None \<Rightarrow> Inl (KeyError key)
         | Some v \<Rightarrow> Inr v)
      else
        (case map_of (priv_legacy_sections self) key of
           Some v \<Rightarrow> Inr v
         | None \<Rightarrow>
             (let sections = join ([CHR 0x0A] @ '' - '') (get_section_names self) in
              case closest_match key (ALL_SECTIONS env) of
                Inl e \<Rightarrow> Inl e
              | Inr m \<Rightarrow>
                  Inl (UnknownSectionException
                         (not_set_message key m @ '' The set sections are:'' @ [CHR 0x0A]
                            @ '' - '' @ sections)))))"

text \<open>
  \<open>pop(key, default_value=NotSet)\<close>: the sentinel \<open>NotSet\<close> is \<open>None\<close> of the option type
  (\<open>fourcipp.utils.not_set\<close> is not among the sources; \<open>check_if_set\<close> tells whether the
  argument is the sentinel). The class attribute \<open>known_sections\<close> is \<open>ALL_SECTIONS\<close>.
\<close>

definition known_sections :: "env \<Rightarrow> string list" where
  "known_sections env = ALL_SECTIONS env"

definition pop :: "env \<Rightarrow> FourCInput \<Rightarrow> string \<Rightarrow> pyval option \<Rightarrow> error + pyval \<times> FourCInput" where
  "pop env self key default_value =
     (case map_of (priv_sections self) key of
        Some v \<Rightarrow> Inr (v, self\<lparr>priv_sections := AList.delete key (priv_sections self)\<rparr>)
      | None \<Rightarrow>
          (case map_of (priv_legacy_sections self) key of
             Some v \<Rightarrow>
               Inr (v, self\<lparr>priv_legacy_sections :=
                              AList.delete key (priv_legacy_sections self)\<rparr>)
           | None \<Rightarrow>
               if key \<in> set (known_sections env) then
                 (case default_value of
                    Some dv \<Rightarrow> Inr (dv, self)
                  | None \<Rightarrow>
                      (case closest_match key (get_section_names self) of
                         Inl e \<Rightarrow> Inl e
                       | Inr m \<Rightarrow> Inl (UnknownSectionException (not_set_message key m))))
               else
                 (case closest_match key (ALL_SECTIONS env) of
                    Inl e \<Rightarrow> Inl e
                  | Inr m \<Rightarrow> Inl (UnknownSectionException (unknown_section_message key m)))))"

subsection \<open>Combining, overwriting, splitting\<close>

text \<open>
  The argument of \<open>combine_sections\<close> and \<open>overwrite_sections\<close>: a \<open>dict\<close>, another
  \<open>FourCInput\<close>, or an object of any other type (given by the name of its type).
\<close>

datatype other = OtherDict pydict | OtherInput FourCInput | OtherObject string

text \<open>
  The loop \<open>for key, value in other.items(): self[key] = value\<close> of \<open>__init__\<close> and of
  \<open>overwrite_sections\<close>. When an assignment raises, the sections stored before it stay
  stored: the result is the object as the exception leaves it, and the exception.
\<close>

fun setitem_loop :: "env \<Rightarrow> FourCInput \<Rightarrow> pydict \<Rightarrow> FourCInput \<times> error option" where
  "setitem_loop env self [] = (self, None)"
| "setitem_loop env self ((key, v) # rest) =
     (case setitem env self key v of
        Inl e \<Rightarrow> (self, Some e)
      | Inr self' \<Rightarrow> setitem_loop env self' rest)"

definition FourCInput_init :: "env \<Rightarrow> pydict option \<Rightarrow> error + FourCInput" where
  "FourCInput_init env sections0 =
     (case sections0 of
        None \<Rightarrow> Inr FourCInput_empty
      | Some kvs \<Rightarrow>
          (case setitem_loop env FourCInput_empty kvs of
             (self, None) \<Rightarrow> Inr self
           | (self, Some e) \<Rightarrow> Inl e))"

definition overwrite_sections :: "env \<Rightarrow> FourCInput \<Rightarrow> other \<Rightarrow> FourCInput \<times> error option" where
  "overwrite_sections env self other =
     (case other of
        OtherDict kvs \<Rightarrow> setitem_loop env self kvs
      | OtherInput inp \<Rightarrow> setitem_loop env self (items inp)
      | OtherObject t \<Rightarrow> (self, Some (TypeError (''Cannot overwrite sections from '' @ t @ ''.''))))"

text \<open>
  The names defined twice are a Python \<open>set\<close>, whose order in the message is not fixed;
  the message here lists them in sorted order.
\<close>

definition combine_sections :: "env \<Rightarrow> FourCInput \<Rightarrow> other \<Rightarrow> FourCInput \<times> error option" where
  "combine_sections env self other =
     (case (case other of
              OtherDict kvs \<Rightarrow> Inr (dict_keys kvs)
            | OtherInput inp \<Rightarrow> Inr (get_section_names inp)
            | OtherObject t \<Rightarrow>
                Inl (TypeError (''Cannot combine sections between FourCInput and '' @ t @ ''.'')))
      of
        Inl e \<Rightarrow> (self, Some e)
      | Inr other_sections_names \<Rightarrow>
          (let doubled_defined_sections =
                 filter (\<lambda>n. n \<in> set other_sections_names) (remdups (get_section_names self))
           in if doubled_defined_sections \<noteq> [] then
                (self, Some (ValueError (''Section(s) '' @ join '', '' doubled_defined_sections
                   @ '' are defined in both FourCInput objects. In order to join the FourCInput objects remove the section(s) in one of them.'')))
              else overwrite_sections env self other))"

text \<open>\<open>copy.deepcopy(self)\<close>: values are not shared in the model, a copy is the value.\<close>

definition copy :: "FourCInput \<Rightarrow> FourCInput" where
  "copy self = self"

definition add :: "env \<Rightarrow> FourCInput \<Rightarrow> other \<Rightarrow> error + FourCInput" where
  "add env self other =
     (case combine_sections env (copy self) other of
        (copied_object, None) \<Rightarrow> Inr copied_object
      | (copied_object, Some e) \<Rightarrow> Inl e)"

text \<open>
  \<open>split\<close> works on a copy of the receiver and on a new, empty object; its result is
  the receiver as the call leaves it, and the pair returned (or the exception).
\<close>

fun split_loop ::
  "env \<Rightarrow> string list \<Rightarrow> FourCInput \<times> FourCInput \<Rightarrow> error + FourCInput \<times> FourCInput"
where
  "split_loop env [] (root_input, spiltted_input) = Inr (root_input, spiltted_input)"
| "split_loop env (section # rest) (root_input, spiltted_input) =
     (case pop env root_input section None of
        Inl e \<Rightarrow> Inl e
      | Inr (v, root_input') \<Rightarrow>
          (case setitem env spiltted_input section v of
             Inl e \<Rightarrow> Inl e
           | Inr spiltted_input' \<Rightarrow> split_loop env rest (root_input', spiltted_input')))"

definition split ::
  "env \<Rightarrow> FourCInput \<Rightarrow> string list \<Rightarrow> FourCInput \<times> (error + FourCInput \<times> FourCInput)"
where
  "split env self section_names =
     (let root_input = copy self; spiltted_input = FourCInput_empty
      in (self, split_loop env section_names (root_input, spiltted_input)))"

definition extract_header :: "env \<Rightarrow> FourCInput \<Rightarrow> error + FourCInput" where
  "extract_header env self = FourCInput_init env (Some (priv_sections self))"

text \<open>
  \<open>__eq__\<close> compares the dictionaries \<open>sections\<close>; two Python dictionaries are equal when
  they have the same keys with equal values, in any order.
\<close>

definition dict_eq :: "pydict \<Rightarrow> pydict \<Rightarrow> bool" where
  "dict_eq a b = (length a = length b \<and> list_all (\<lambda>kv. map_of b (fst kv) = Some (snd kv)) a)"

definition eq :: "FourCInput \<Rightarrow> FourCInput \<Rightarrow> bool" where
  "eq self other = dict_eq (sections self) (sections other)"

subsection \<open>Validation and export\<close>

text \<open>
  \<open>convert_to_native_types\<close> converts the two dictionaries, one after the other. A
  converter that raises on the second leaves the first converted. (A converter that
  returned something else than a dictionary for a dictionary would leave an object no
  method works on; the model reports that as a \<open>TypeError\<close> at once.)
\<close>

definition convert_to_native_types :: "env \<Rightarrow> FourCInput \<Rightarrow> FourCInput \<times> error option" where
  "convert_to_native_types env self =
     (case type_converter env (PDict (priv_sections self)) of
        Inl e \<Rightarrow> (self, Some e)
      | Inr (PDict s) \<Rightarrow>
          (let self1 = self\<lparr>priv_sections := s\<rparr> in
           case type_converter env (PDict (priv_legacy_sections self1)) of
             Inl e \<Rightarrow> (self1, Some e)
           | Inr (PDict l) \<Rightarrow> (self1\<lparr>priv_legacy_sections := l\<rparr>, None)
           | Inr _ \<Rightarrow> (self1, Some (TypeError ''converted sections are not a dict'')))
      | Inr _ \<Rightarrow> (self, Some (TypeError ''converted sections are not a dict'')))"


text \<open>
  \<open>validate_using_json_schema\<close> hands the data and the schema to the schema engine, which
  raises or returns. The second half of \<open>validate\<close> walks the entries of every inlined
  legacy section; the first entry that is not a string raises. (The message also prints
  the entry, which is left out here.)
\<close>

definition validate_using_json_schema :: "env \<Rightarrow> pydict \<Rightarrow> pydict \<Rightarrow> error + bool" where
  "validate_using_json_schema env data schema =
     (case jsonschema_validate env schema data of
        Some e \<Rightarrow> Inl e
      | None \<Rightarrow> Inr True)"

fun is_str :: "pyval \<Rightarrow> bool" where
  "is_str (PStr _) = True"
| "is_str _ = False"

fun show_nat :: "nat \<Rightarrow> string" where
  "show_nat n =
     (if n < 10 then [char_of (48 + n)] else show_nat (n div 10) @ [char_of (48 + n mod 10)])"

declare show_nat.simps [simp del]

fun entries_loop :: "string \<Rightarrow> nat \<Rightarrow> pyval list \<Rightarrow> error option" where
  "entries_loop section_name i [] = None"
| "entries_loop section_name i (k # rest) =
     (if \<not> is_str k then
        Some (ValidationError (''Could not validate the legacy section '' @ section_name
                @ '', since entry '' @ show_nat i @ '' is not a string''))
      else entries_loop section_name (i + 1) rest)"

fun legacy_sections_loop :: "pydict \<Rightarrow> error option" where
  "legacy_sections_loop [] = None"
| "legacy_sections_loop ((section_name, section) # rest) =
     (case section of
        PNone \<Rightarrow> Some (TypeError ''object is not iterable'')
      | PBool _ \<Rightarrow> Some (TypeError ''object is not iterable'')
      | PInt _ \<Rightarrow> Some (TypeError ''object is not iterable'')
      | PFloat _ \<Rightarrow> Some (TypeError ''object is not iterable'')
      | PObject _ \<Rightarrow> Some (TypeError ''object is not iterable'')
      | _ \<Rightarrow>
          (case entries_loop section_name 0 (iter_sequence section) of
             Some e \<Rightarrow> Some e
           | None \<Rightarrow> legacy_sections_loop rest))"

definition validate :: "env \<Rightarrow> FourCInput \<Rightarrow> bool \<Rightarrow> bool \<Rightarrow> FourCInput \<times> (error + bool)" where
  "validate env self sections_only convert =
     (case (if sections_only then
              (case map_of (json_schema env) ''required'' of
                 None \<Rightarrow> Inl (KeyError ''required'')
               | Some _ \<Rightarrow> Inr (AList.delete ''required'' (json_schema env)))
            else Inr (json_schema env))
      of
        Inl e \<Rightarrow> (self, Inl e)
      | Inr validation_schema \<Rightarrow>
          (case (if convert then convert_to_native_types env self else (self, None)) of
             (self1, Some e) \<Rightarrow> (self1, Inl e)
           | (self1, None) \<Rightarrow>
               (case validate_using_json_schema env (priv_sections self1) validation_schema of
                  Inl e \<Rightarrow> (self1, Inl e)
                | Inr _ \<Rightarrow>
                    (case inline_legacy_sections env (priv_legacy_sections self1) of
                       Inl e \<Rightarrow> (self1, Inl e)
                     | Inr legacy \<Rightarrow>
                         (case legacy_sections_loop legacy of
                            Some e \<Rightarrow> (self1, Inl e)
                          | None \<Rightarrow> (self1, Inr True))))))"



section \<open>Sequences of calls, and what they preserve\<close>

text \<open>
  No name is a key of both dictionaries; and, more precisely, the keys of \<open>_sections\<close>
  are the names \<open>is_section_known\<close> accepts and the keys of \<open>_legacy_sections\<close> are
  names it does not.
\<close>

definition partitions_disjoint :: "FourCInput \<Rightarrow> bool" where
  "partitions_disjoint d =
     (set (dict_keys (priv_sections d)) \<inter> set (dict_keys (priv_legacy_sections d)) = {})"

definition well_classified :: "env \<Rightarrow> FourCInput \<Rightarrow> bool" where
  "well_classified env d =
     ((\<forall>k \<in> set (dict_keys (priv_sections d)). is_section_known env k)
      \<and> (\<forall>k \<in> set (dict_keys (priv_legacy_sections d)). \<not> is_section_known env k))"

text \<open>
  A client program is a list of calls on one object; \<open>apply_operation\<close> gives the
  object as a call leaves it, whether the call returned or raised.
\<close>

datatype operation =
    Set string pyval
  | Pop string "pyval option"
  | Combine other
  | Overwrite other
  | Split "string list"

fun apply_operation :: "env \<Rightarrow> FourCInput \<Rightarrow> operation \<Rightarrow> FourCInput" where
  "apply_operation env self (Set key v) =
     (case setitem env self key v of Inl e \<Rightarrow> self | Inr self' \<Rightarrow> self')"
| "apply_operation env self (Pop key default_value) =
     (case pop env self key default_value of Inl e \<Rightarrow> self | Inr (v, self') \<Rightarrow> self')"
| "apply_operation env self (Combine other) = fst (combine_sections env self other)"
| "apply_operation env self (Overwrite other) = fst (overwrite_sections env self other)"
| "apply_operation env self (Split section_names) = fst (split env self section_names)"








text \<open>
  A section is settled when the collaborators leave it as it is: the converter returns
  the value unchanged, and the name is a structured one, or it is a legacy one and the
  value is a dictionary, a list with a dictionary among its entries, or a list that
  its own interpretation returns unchanged (the empty list of a line-per-record
  section, say). The collaborators are regular when converting a converted value
  changes nothing, and what an interpretation returns is settled.
\<close>

definition settled :: "env \<Rightarrow> string \<times> pyval \<Rightarrow> bool" where
  "settled env kv =
     (type_converter env (snd kv) = Inr (snd kv)
      \<and> (is_section_known env (fst kv)
         \<or> (fst kv \<in> set (LEGACY_SECTIONS env)
            \<and> (case snd kv of
                  PDict _ \<Rightarrow> True
                | PList xs \<Rightarrow>
                    list_ex is_dict xs \<or> interpret_legacy_section env (fst kv) xs = Inr (snd kv)
                | _ \<Rightarrow> False))))"

definition regular_collaborators :: "env \<Rightarrow> bool" where
  "regular_collaborators env =
     ((\<forall>v c. type_converter env v = Inr c \<longrightarrow> type_converter env c = Inr c)
      \<and> (\<forall>k xs r. k \<in> set (LEGACY_SECTIONS env) \<and> \<not> is_section_known env k
                 \<and> interpret_legacy_section env k xs = Inr r \<longrightarrow> settled env (k, r)))"

text \<open>
  The keys of a Python dictionary are distinct; \<open>section_map\<close> is the mapping from names
  to values that the two dictionaries of an object represent together.
\<close>

definition keys_distinct :: "FourCInput \<Rightarrow> bool" where
  "keys_distinct d =
     (distinct (dict_keys (priv_sections d)) \<and> distinct (dict_keys (priv_legacy_sections d)))"

definition section_map :: "FourCInput \<Rightarrow> (string \<rightharpoonup> pyval)" where
  "section_map d = map_of (priv_sections d) ++ map_of (priv_legacy_sections d)"

definition tidy :: "env \<Rightarrow> FourCInput \<Rightarrow> bool" where
  "tidy env d =
     (keys_distinct d \<and> list_all (settled env) (priv_sections d)
      \<and> list_all (settled env) (priv_legacy_sections d))"

section \<open>An example catalog with a particle codec\<close>

text \<open>
  Modelled from the spec: \<open>read_particle\<close> and \<open>write_particle\<close> of
  \<open>fourcipp.legacy_io.particle\<close>, which is not among the sources. The spec has a codec
  split a line on runs of whitespace, read the leading positional tokens and the
  \<open>KEY VALUE\<close> attributes after them into a mapping, read a numeric token without
  decimal point as an integer, and join the tokens with single spaces on the way back;
  its scenario is the line \<open><id> TYPE <tag> POS <x> <y> <z>\<close>. The functions below do
  that for lines of this shape with integer tokens; any other line is malformed.
\<close>

definition is_space :: "char \<Rightarrow> bool" where
  "is_space c =
     (let n = (of_char c :: nat) in (9 \<le> n \<and> n \<le> 13) \<or> (28 \<le> n \<and> n \<le> 32))"

fun split_loop_ws :: "string \<Rightarrow> string \<Rightarrow> string list" where
  "split_loop_ws [] token = (if token = [] then [] else [token])"
| "split_loop_ws (c # cs) token =
     (if is_space c then (if token = [] then split_loop_ws cs [] else token # split_loop_ws cs [])
      else split_loop_ws cs (token @ [c]))"

definition str_split :: "string \<Rightarrow> string list" where
  "str_split s = split_loop_ws s []"

fun parse_digits :: "string \<Rightarrow> nat \<Rightarrow> nat option" where
  "parse_digits [] acc = Some acc"
| "parse_digits (c # cs) acc =
     (if CHR ''0'' \<le> c \<and> c \<le> CHR ''9'' then parse_digits cs (10 * acc + (of_char c - 48))
      else None)"

definition parse_int :: "string \<Rightarrow> int option" where
  "parse_int token =
     (case token of
        [] \<Rightarrow> None
      | c # cs \<Rightarrow>
          if c = CHR ''-'' then
            (if cs = [] then None else map_option (\<lambda>n. - int n) (parse_digits cs 0))
          else map_option int (parse_digits token 0))"

definition show_int :: "int \<Rightarrow> string" where
  "show_int i = (if i < 0 then CHR ''-'' # show_nat (nat (- i)) else show_nat (nat i))"

definition example_read_particle :: "pyval \<Rightarrow> error + pyval" where
  "example_read_particle line =
     (case line of
        PStr l \<Rightarrow>
          (case str_split l of
             [i, t, tag, p, x, y, z] \<Rightarrow>
               (case (parse_int i, parse_int x, parse_int y, parse_int z) of
                  (Some i', Some x', Some y', Some z') \<Rightarrow>
                    if t = ''TYPE'' \<and> p = ''POS'' then
                      Inr (PDict [(''ID'', PInt i'), (''TYPE'', PStr tag),
                                  (''POS'', PList [PInt x', PInt y', PInt z'])])
                    else Inl (MalformedRecordError l)
                | _ \<Rightarrow> Inl (MalformedRecordError l))
           | _ \<Rightarrow> Inl (MalformedRecordError l))
      | _ \<Rightarrow> Inl (TypeError ''a particle line is a string''))"

definition example_write_particle :: "pyval \<Rightarrow> error + pyval" where
  "example_write_particle particle =
     (case particle of
        PDict [(k1, PInt i), (k2, PStr tag), (k3, PList [PInt x, PInt y, PInt z])] \<Rightarrow>
          if k1 = ''ID'' \<and> k2 = ''TYPE'' \<and> k3 = ''POS'' then
            Inr (PStr (join '' '' [show_int i, ''TYPE'', tag, ''POS'',
                                   show_int x, show_int y, show_int z]))
          else Inl (MalformedRecordError ''particle'')
      | _ \<Rightarrow> Inl (MalformedRecordError ''particle''))"

text \<open>
  The example catalog: four structured sections, two legacy ones. The converter leaves
  native values as they are; the codecs other than the particle codec, and a schema
  engine that accepts everything, stand for collaborators the examples do not reach.
\<close>

definition example_env :: env where
  "example_env =
     \<lparr>SECTIONS = [''TITLE'', ''PROBLEM TYPE'', ''MATERIALS'', ''INCLUDES''],
      LEGACY_SECTIONS = [''PARTICLES'', ''NODE COORDS''],
      ALL_SECTIONS =
        [''TITLE'', ''PROBLEM TYPE'', ''MATERIALS'', ''INCLUDES'', ''PARTICLES'', ''NODE COORDS''],
      type_converter = Inr,
      read_particle = example_read_particle,
      read_node = (\<lambda>line. Inl (NotImplementedError ''read_node'')),
      read_element = (\<lambda>line. Inl (NotImplementedError ''read_element'')),
      read_node_topology = (\<lambda>line. Inl (NotImplementedError ''read_node_topology'')),
      read_domain = (\<lambda>lines. Inl (NotImplementedError ''read_domain'')),
      read_knotvectors = (\<lambda>lines. Inl (NotImplementedError ''read_knotvectors'')),
      write_particle = example_write_particle,
      write_node = (\<lambda>r. Inl (NotImplementedError ''write_node'')),
      write_element = (\<lambda>r. Inl (NotImplementedError ''write_element'')),
      write_node_topology = (\<lambda>r. Inl (NotImplementedError ''write_node_topology'')),
      write_domain = (\<lambda>r. Inl (NotImplementedError ''write_domain'')),
      write_knotvectors = (\<lambda>r. Inl (NotImplementedError ''write_knotvectors'')),
      json_schema = [(''required'', PList [])],
      jsonschema_validate = (\<lambda>schema data. None)\<rparr>"

text \<open>
  A second catalog, with one legacy section for each codec and one that no codec
  serves. Its codecs other than the particle codec wrap what they are given under
  their own name, so that an example shows which codec a section went to.
\<close>

definition wrap :: "string \<Rightarrow> pyval \<Rightarrow> error + pyval" where
  "wrap name x = Inr (PDict [(name, x)])"

definition dispatch_env :: env where
  "dispatch_env =
     example_env
       \<lparr>LEGACY_SECTIONS :=
          [''PARTICLES'', ''NODE COORDS'', ''STRUCTURE ELEMENTS'', ''DNODE-NODE TOPOLOGY'',
           ''FLUID DOMAIN'', ''STRUCTURE KNOTVECTORS'', ''OLD MESH''],
        read_node := wrap ''node'',
        read_element := wrap ''element'',
        read_node_topology := wrap ''node_topology'',
        read_domain := (\<lambda>lines. wrap ''domain'' (PList lines)),
        read_knotvectors := (\<lambda>lines. wrap ''knotvectors'' (PList lines))\<rparr>"

definition legacy_only :: "string \<Rightarrow> pyval \<Rightarrow> FourCInput" where
  "legacy_only n r = \<lparr>priv_sections = [], priv_legacy_sections = [(n, r)]\<rparr>"

definition example_lines :: pyval where
  "example_lines = PList [PStr ''1 TYPE A POS 0 0 0'']"

definition example_records :: pyval where
  "example_records =
     PList [PDict [(''ID'', PInt 1), (''TYPE'', PStr ''A''),
                   (''POS'', PList [PInt 0, PInt 0, PInt 0])]]"

definition example_particles :: FourCInput where
  "example_particles =
     \<lparr>priv_sections = [], priv_legacy_sections = [(''PARTICLES'', example_records)]\<rparr>"

definition example_title :: FourCInput where
  "example_title = \<lparr>priv_sections = [(''TITLE'', PStr ''beam'')], priv_legacy_sections = []\<rparr>"

definition example_operations :: "operation list" where
  "example_operations =
     [Set ''PARTICLES'' example_lines, Set ''TITLE'' (PStr ''beam''), Pop ''MATERIALS'' (Some PNone),
      Overwrite (OtherDict [(''TITLE'', PStr ''plate''), (''NO SECTION'', PNone)]),
      Combine (OtherInput example_particles), Split [''TITLE'']]"

definition example_document :: FourCInput where
  "example_document =
     \<lparr>priv_sections = [(''TITLE'', PStr ''plate'')],
      priv_legacy_sections = [(''PARTICLES'', example_records)]\<rparr>"


definition example_built :: FourCInput where
  "example_built =
     \<lparr>priv_sections = [(''TITLE'', PStr ''beam'')],
      priv_legacy_sections = [(''PARTICLES'', example_records)]\<rparr>"





definition example_remainder :: FourCInput where
  "example_remainder = \<lparr>priv_sections = [(''TITLE'', PStr ''plate'')], priv_legacy_sections = []\<rparr>"

section \<open>Properties\<close>

subsection \<open>Dictionaries\<close>

lemma map_of_None_iff_keys: "map_of al k = None \<longleftrightarrow> k \<notin> set (dict_keys al)"
  by (simp add: dict_keys_def map_of_eq_None_iff)

lemma map_of_Some_keys: "map_of al k = Some v \<Longrightarrow> k \<in> set (dict_keys al)"
  using map_of_None_iff_keys [of al k] by simp

subsection \<open>Facts about the example catalog\<close>

lemma example_known: "is_section_known example_env ''TITLE''"
  by (simp add: is_section_known_def example_env_def)

lemma example_PARTICLES_legacy:
  "''PARTICLES'' \<in> set (LEGACY_SECTIONS example_env)
   \<and> \<not> is_section_known example_env ''PARTICLES''"
  by (simp add: is_section_known_def example_env_def)

lemma example_converter: "type_converter example_env v = Inr v"
  by (simp add: example_env_def)

lemma example_getitem_unknown:
  "getitem example_env FourCInput_empty ''MATERIAL''
     = Inl (UnknownSectionException (not_set_message ''MATERIAL'' ''MATERIALS''
              @ '' The set sections are:'' @ [CHR 0x0A] @ '' - ''))"
  by code_simp

subsection \<open>Reading a section\<close>

text \<open>
  C10. For a name that satisfies \<open>is_section_known\<close> (a catalog name or a name that
  starts with \<open>FUNCT\<close>) and is not set in the object, \<open>__getitem__\<close> raises the plain
  \<open>KeyError\<close> of the dictionary lookup. Whenever \<open>__getitem__\<close> raises
  \<open>UnknownSectionException\<close>, the name does not satisfy \<open>is_section_known\<close>.
\<close>

theorem getitem_known_unset:
  "(is_section_known env n \<and> \<not> contains d n \<longrightarrow> getitem env d n = Inl (KeyError n))
   \<and> (\<forall>m. getitem env d n = Inl (UnknownSectionException m) \<longrightarrow> \<not> is_section_known env n)"
  by (auto simp: getitem_def contains_def dest: map_of_Some_keys split: option.splits)

theorem getitem_known_unset_witness:
  "is_section_known example_env ''TITLE'' \<and> \<not> contains FourCInput_empty ''TITLE''
   \<and> getitem example_env FourCInput_empty ''TITLE'' = Inl (KeyError ''TITLE'')
   \<and> getitem example_env FourCInput_empty ''MATERIAL''
      = Inl (UnknownSectionException (not_set_message ''MATERIAL'' ''MATERIALS''
               @ '' The set sections are:'' @ [CHR 0x0A] @ '' - ''))
   \<and> \<not> is_section_known example_env ''MATERIAL''"
proof -
  have a: "is_section_known example_env ''TITLE''" by (rule example_known)
  have b: "\<not> contains FourCInput_empty ''TITLE''"
    by (simp add: contains_def FourCInput_empty_def dict_keys_def)
  note c = example_getitem_unknown
  from getitem_known_unset [of example_env "''TITLE''" FourCInput_empty] a b
  have d: "getitem example_env FourCInput_empty ''TITLE'' = Inl (KeyError ''TITLE'')" by blast
  from getitem_known_unset [of example_env "''MATERIAL''" FourCInput_empty] c
  have e: "\<not> is_section_known example_env ''MATERIAL''" by blast
  show ?thesis using a b c d e by blast
qed

subsection \<open>Storing a section\<close>

lemma as_list_iterate_and_evaluate:
  "as_list (iterate_and_evaluate f xs) = decode_lines f xs"
proof (induction xs)
  case Nil
  then show ?case by (simp add: as_list_def decode_lines_def)
next
  case (Cons x xs)
  then show ?case
    by (cases "f x"; cases "iterate_and_evaluate f xs")
       (auto simp: as_list_def decode_lines_def split: option.splits)
qed

lemma suffix_literals:
  "\<not> suffix ''ELEMENTS'' ''PARTICLES''" "\<not> suffix ''ELEMENTS'' ''NODE COORDS''"
  "\<not> suffix ''NODE TOPOLOGY'' ''PARTICLES''" "\<not> suffix ''NODE TOPOLOGY'' ''NODE COORDS''"
  "\<not> suffix ''DOMAIN'' ''PARTICLES''" "\<not> suffix ''DOMAIN'' ''NODE COORDS''"
  "\<not> suffix ''KNOTVECTORS'' ''PARTICLES''" "\<not> suffix ''KNOTVECTORS'' ''NODE COORDS''"
  "\<not> suffix ''ELEMENTS'' ''NODE TOPOLOGY''" "\<not> suffix ''NODE TOPOLOGY'' ''ELEMENTS''"
  "\<not> suffix ''ELEMENTS'' ''DOMAIN''" "\<not> suffix ''DOMAIN'' ''ELEMENTS''"
  "\<not> suffix ''ELEMENTS'' ''KNOTVECTORS''" "\<not> suffix ''KNOTVECTORS'' ''ELEMENTS''"
  "\<not> suffix ''NODE TOPOLOGY'' ''DOMAIN''" "\<not> suffix ''DOMAIN'' ''NODE TOPOLOGY''"
  "\<not> suffix ''NODE TOPOLOGY'' ''KNOTVECTORS''" "\<not> suffix ''KNOTVECTORS'' ''NODE TOPOLOGY''"
  "\<not> suffix ''DOMAIN'' ''KNOTVECTORS''" "\<not> suffix ''KNOTVECTORS'' ''DOMAIN''"
  by code_simp+

lemma suffix_exclusive:
  "suffix a n \<Longrightarrow> \<not> suffix a b \<Longrightarrow> \<not> suffix b a \<Longrightarrow> \<not> suffix b n"
  using suffix_same_cases by blast

lemma interpret_legacy_section_dispatch:
  assumes "n \<in> set (LEGACY_SECTIONS env)"
  shows "(n = ''PARTICLES'' \<longrightarrow>
            interpret_legacy_section env n xs = decode_lines (read_particle env) xs)
       \<and> (n = ''NODE COORDS'' \<longrightarrow>
            interpret_legacy_section env n xs = decode_lines (read_node env) xs)
       \<and> (suffix ''ELEMENTS'' n \<longrightarrow>
            interpret_legacy_section env n xs = decode_lines (read_element env) xs)
       \<and> (suffix ''NODE TOPOLOGY'' n \<longrightarrow>
            interpret_legacy_section env n xs = decode_lines (read_node_topology env) xs)
       \<and> (suffix ''DOMAIN'' n \<longrightarrow> interpret_legacy_section env n xs = read_domain env xs)
       \<and> (suffix ''KNOTVECTORS'' n \<longrightarrow>
            interpret_legacy_section env n xs = read_knotvectors env xs)
       \<and> (n \<noteq> ''PARTICLES'' \<and> n \<noteq> ''NODE COORDS'' \<and> \<not> suffix ''ELEMENTS'' n
            \<and> \<not> suffix ''NODE TOPOLOGY'' n \<and> \<not> suffix ''DOMAIN'' n
            \<and> \<not> suffix ''KNOTVECTORS'' n \<longrightarrow>
            interpret_legacy_section env n xs
              = Inl (NotImplementedError (''Legacy section '' @ n @ '' is not implemented.'')))"
proof -
  have e: "n \<noteq> ''PARTICLES'' \<and> n \<noteq> ''NODE COORDS''" if "suffix ''ELEMENTS'' n"
    using that suffix_literals by auto
  have t: "n \<noteq> ''PARTICLES'' \<and> n \<noteq> ''NODE COORDS'' \<and> \<not> suffix ''ELEMENTS'' n"
    if "suffix ''NODE TOPOLOGY'' n"
    using that suffix_literals suffix_exclusive [OF that, of "''ELEMENTS''"] by auto
  have d: "n \<noteq> ''PARTICLES'' \<and> n \<noteq> ''NODE COORDS'' \<and> \<not> suffix ''ELEMENTS'' n
        \<and> \<not> suffix ''NODE TOPOLOGY'' n"
    if "suffix ''DOMAIN'' n"
    using that suffix_literals suffix_exclusive [OF that, of "''ELEMENTS''"]
      suffix_exclusive [OF that, of "''NODE TOPOLOGY''"] by auto
  have k: "n \<noteq> ''PARTICLES'' \<and> n \<noteq> ''NODE COORDS'' \<and> \<not> suffix ''ELEMENTS'' n
        \<and> \<not> suffix ''NODE TOPOLOGY'' n \<and> \<not> suffix ''DOMAIN'' n"
    if "suffix ''KNOTVECTORS'' n"
    using that suffix_literals suffix_exclusive [OF that, of "''ELEMENTS''"]
      suffix_exclusive [OF that, of "''NODE TOPOLOGY''"]
      suffix_exclusive [OF that, of "''DOMAIN''"] by auto
  show ?thesis
    using assms e t d k
    by (auto simp: interpret_legacy_section_def as_list_iterate_and_evaluate)
qed

text \<open>
  C8. For a name of the legacy set (that \<open>is_section_known\<close> does not claim first) and a
  value the converter turns into \<open>c\<close>. When \<open>c\<close> is a list with no dictionary among its
  entries, \<open>__setitem__\<close> stores the interpreted records, or raises what the
  interpretation raises: for \<open>PARTICLES\<close> the records of \<open>read_particle\<close>, line by line,
  for \<open>NODE COORDS\<close> those of \<open>read_node\<close>, for a name ending in \<open>ELEMENTS\<close> those of
  \<open>read_element\<close>, for a name ending in \<open>NODE TOPOLOGY\<close> those of \<open>read_node_topology\<close>,
  for a name ending in \<open>DOMAIN\<close> what \<open>read_domain\<close> makes of all lines, for a name
  ending in \<open>KNOTVECTORS\<close> what \<open>read_knotvectors\<close> makes of them, and for any other
  legacy name \<open>NotImplementedError\<close>. When \<open>c\<close> is a list with a dictionary among its
  entries, or a dictionary, it stores \<open>c\<close> as it is; for any other \<open>c\<close> it raises
  \<open>TypeError\<close>. (Outside the legacy set the interpretation raises \<open>ValueError\<close>.)
\<close>

theorem setitem_legacy_section:
  assumes "n \<in> set (LEGACY_SECTIONS env)" and "\<not> is_section_known env n"
    and "type_converter env v = Inr c"
  shows "(\<forall>xs. c = PList xs \<and> \<not> list_ex is_dict xs \<longrightarrow>
            (n = ''PARTICLES'' \<longrightarrow>
               setitem env d n v = store_legacy d n (decode_lines (read_particle env) xs))
          \<and> (n = ''NODE COORDS'' \<longrightarrow>
               setitem env d n v = store_legacy d n (decode_lines (read_node env) xs))
          \<and> (suffix ''ELEMENTS'' n \<longrightarrow>
               setitem env d n v = store_legacy d n (decode_lines (read_element env) xs))
          \<and> (suffix ''NODE TOPOLOGY'' n \<longrightarrow>
               setitem env d n v = store_legacy d n (decode_lines (read_node_topology env) xs))
          \<and> (suffix ''DOMAIN'' n \<longrightarrow>
               setitem env d n v = store_legacy d n (read_domain env xs))
          \<and> (suffix ''KNOTVECTORS'' n \<longrightarrow>
               setitem env d n v = store_legacy d n (read_knotvectors env xs))
          \<and> (n \<noteq> ''PARTICLES'' \<and> n \<noteq> ''NODE COORDS'' \<and> \<not> suffix ''ELEMENTS'' n
               \<and> \<not> suffix ''NODE TOPOLOGY'' n \<and> \<not> suffix ''DOMAIN'' n
               \<and> \<not> suffix ''KNOTVECTORS'' n \<longrightarrow>
               setitem env d n v
                 = Inl (NotImplementedError (''Legacy section '' @ n @ '' is not implemented.''))))
       \<and> ((\<exists>xs. c = PList xs \<and> list_ex is_dict xs) \<or> is_dict c \<longrightarrow>
            setitem env d n v
              = Inr (d\<lparr>priv_legacy_sections := AList.update n c (priv_legacy_sections d)\<rparr>))
       \<and> (\<not> is_list c \<and> \<not> is_dict c \<longrightarrow>
            setitem env d n v = Inl (TypeError (''Section '' @ n @ '' is not a list or dict.'')))
       \<and> (\<forall>m xs. m \<notin> set (LEGACY_SECTIONS env) \<longrightarrow>
            (\<exists>msg. interpret_legacy_section env m xs = Inl (ValueError msg)))"
proof -
  have s: "setitem env d n v = store_legacy d n (interpret_legacy_section env n xs)"
    if "c = PList xs" and "\<not> list_ex is_dict xs" for xs
    using that assms by (simp add: setitem_def store_legacy_def)
  have a: "\<forall>xs. c = PList xs \<and> \<not> list_ex is_dict xs \<longrightarrow>
            (n = ''PARTICLES'' \<longrightarrow>
               setitem env d n v = store_legacy d n (decode_lines (read_particle env) xs))
          \<and> (n = ''NODE COORDS'' \<longrightarrow>
               setitem env d n v = store_legacy d n (decode_lines (read_node env) xs))
          \<and> (suffix ''ELEMENTS'' n \<longrightarrow>
               setitem env d n v = store_legacy d n (decode_lines (read_element env) xs))
          \<and> (suffix ''NODE TOPOLOGY'' n \<longrightarrow>
               setitem env d n v = store_legacy d n (decode_lines (read_node_topology env) xs))
          \<and> (suffix ''DOMAIN'' n \<longrightarrow>
               setitem env d n v = store_legacy d n (read_domain env xs))
          \<and> (suffix ''KNOTVECTORS'' n \<longrightarrow>
               setitem env d n v = store_legacy d n (read_knotvectors env xs))
          \<and> (n \<noteq> ''PARTICLES'' \<and> n \<noteq> ''NODE COORDS'' \<and> \<not> suffix ''ELEMENTS'' n
               \<and> \<not> suffix ''NODE TOPOLOGY'' n \<and> \<not> suffix ''DOMAIN'' n
               \<and> \<not> suffix ''KNOTVECTORS'' n \<longrightarrow>
               setitem env d n v
                 = Inl (NotImplementedError (''Legacy section '' @ n @ '' is not implemented.'')))"
  proof (intro allI impI)
    fix xs assume xs: "c = PList xs \<and> \<not> list_ex is_dict xs"
    note i = interpret_legacy_section_dispatch [OF assms(1), of xs]
    have s': "setitem env d n v = store_legacy d n (interpret_legacy_section env n xs)"
      using s xs by blast
    show "(n = ''PARTICLES'' \<longrightarrow>
               setitem env d n v = store_legacy d n (decode_lines (read_particle env) xs))
          \<and> (n = ''NODE COORDS'' \<longrightarrow>
               setitem env d n v = store_legacy d n (decode_lines (read_node env) xs))
          \<and> (suffix ''ELEMENTS'' n \<longrightarrow>
               setitem env d n v = store_legacy d n (decode_lines (read_element env) xs))
          \<and> (suffix ''NODE TOPOLOGY'' n \<longrightarrow>
               setitem env d n v = store_legacy d n (decode_lines (read_node_topology env) xs))
          \<and> (suffix ''DOMAIN'' n \<longrightarrow>
               setitem env d n v = store_legacy d n (read_domain env xs))
          \<and> (suffix ''KNOTVECTORS'' n \<longrightarrow>
               setitem env d n v = store_legacy d n (read_knotvectors env xs))
          \<and> (n \<noteq> ''PARTICLES'' \<and> n \<noteq> ''NODE COORDS'' \<and> \<not> suffix ''ELEMENTS'' n
               \<and> \<not> suffix ''NODE TOPOLOGY'' n \<and> \<not> suffix ''DOMAIN'' n
               \<and> \<not> suffix ''KNOTVECTORS'' n \<longrightarrow>
               setitem env d n v
                 = Inl (NotImplementedError (''Legacy section '' @ n @ '' is not implemented.'')))"
      unfolding s' using i by (auto simp: store_legacy_def)
  qed
  have b: "(\<exists>xs. c = PList xs \<and> list_ex is_dict xs) \<or> is_dict c \<longrightarrow>
            setitem env d n v
              = Inr (d\<lparr>priv_legacy_sections := AList.update n c (priv_legacy_sections d)\<rparr>)"
    using assms by (cases c) (auto simp: setitem_def)
  have t: "\<not> is_list c \<and> \<not> is_dict c \<longrightarrow>
            setitem env d n v = Inl (TypeError (''Section '' @ n @ '' is not a list or dict.''))"
    using assms by (cases c) (auto simp: setitem_def)
  have e: "\<forall>m xs. m \<notin> set (LEGACY_SECTIONS env) \<longrightarrow>
            (\<exists>msg. interpret_legacy_section env m xs = Inl (ValueError msg))"
    by (simp add: interpret_legacy_section_def)
  show ?thesis using a b t e by blast
qed


lemma dispatch_converter: "type_converter dispatch_env v = Inr v"
  by (simp add: dispatch_env_def example_env_def)

lemma dispatch_names:
  "list_all (\<lambda>n. n \<in> set (LEGACY_SECTIONS dispatch_env) \<and> \<not> is_section_known dispatch_env n)
     [''PARTICLES'', ''NODE COORDS'', ''STRUCTURE ELEMENTS'', ''DNODE-NODE TOPOLOGY'',
      ''FLUID DOMAIN'', ''STRUCTURE KNOTVECTORS'', ''OLD MESH'']"
  by code_simp

lemma dispatch_suffixes:
  "suffix ''ELEMENTS'' ''STRUCTURE ELEMENTS''" "suffix ''NODE TOPOLOGY'' ''DNODE-NODE TOPOLOGY''"
  "suffix ''DOMAIN'' ''FLUID DOMAIN''" "suffix ''KNOTVECTORS'' ''STRUCTURE KNOTVECTORS''"
  "\<not> suffix ''ELEMENTS'' ''OLD MESH''" "\<not> suffix ''NODE TOPOLOGY'' ''OLD MESH''"
  "\<not> suffix ''DOMAIN'' ''OLD MESH''" "\<not> suffix ''KNOTVECTORS'' ''OLD MESH''"
  by code_simp+

lemma dispatch_results:
  "store_legacy FourCInput_empty ''PARTICLES''
     (decode_lines (read_particle dispatch_env) [PStr ''1 TYPE A POS 0 0 0''])
     = Inr example_particles"
  "store_legacy FourCInput_empty ''PARTICLES''
     (decode_lines (read_particle dispatch_env) [PStr ''1 TYPE A POS 0 0 0'', PStr ''2 TYPE'',  PStr ''x''])
     = Inl (MalformedRecordError ''2 TYPE'')"
  "store_legacy FourCInput_empty ''NODE COORDS''
     (decode_lines (read_node dispatch_env) [PStr ''1 TYPE A POS 0 0 0''])
     = Inr (legacy_only ''NODE COORDS'' (PList [PDict [(''node'', PStr ''1 TYPE A POS 0 0 0'')]]))"
  "store_legacy FourCInput_empty ''STRUCTURE ELEMENTS''
     (decode_lines (read_element dispatch_env) [PStr ''1 TYPE A POS 0 0 0''])
     = Inr (legacy_only ''STRUCTURE ELEMENTS''
              (PList [PDict [(''element'', PStr ''1 TYPE A POS 0 0 0'')]]))"
  "store_legacy FourCInput_empty ''DNODE-NODE TOPOLOGY''
     (decode_lines (read_node_topology dispatch_env) [PStr ''1 TYPE A POS 0 0 0''])
     = Inr (legacy_only ''DNODE-NODE TOPOLOGY''
              (PList [PDict [(''node_topology'', PStr ''1 TYPE A POS 0 0 0'')]]))"
  "store_legacy FourCInput_empty ''FLUID DOMAIN''
     (read_domain dispatch_env [PStr ''1 TYPE A POS 0 0 0''])
     = Inr (legacy_only ''FLUID DOMAIN'' (PDict [(''domain'', example_lines)]))"
  "store_legacy FourCInput_empty ''STRUCTURE KNOTVECTORS''
     (read_knotvectors dispatch_env [PStr ''1 TYPE A POS 0 0 0''])
     = Inr (legacy_only ''STRUCTURE KNOTVECTORS'' (PDict [(''knotvectors'', example_lines)]))"
  by code_simp+

theorem setitem_legacy_section_witness:
  "list_all (\<lambda>n. n \<in> set (LEGACY_SECTIONS dispatch_env) \<and> \<not> is_section_known dispatch_env n)
     [''PARTICLES'', ''NODE COORDS'', ''STRUCTURE ELEMENTS'', ''DNODE-NODE TOPOLOGY'',
      ''FLUID DOMAIN'', ''STRUCTURE KNOTVECTORS'', ''OLD MESH'']
   \<and> type_converter dispatch_env example_lines = Inr example_lines
   \<and> setitem dispatch_env FourCInput_empty ''PARTICLES'' example_lines = Inr example_particles
   \<and> setitem dispatch_env FourCInput_empty ''PARTICLES''
        (PList [PStr ''1 TYPE A POS 0 0 0'', PStr ''2 TYPE'',  PStr ''x''])
       = Inl (MalformedRecordError ''2 TYPE'')
   \<and> setitem dispatch_env FourCInput_empty ''NODE COORDS'' example_lines
       = Inr (legacy_only ''NODE COORDS'' (PList [PDict [(''node'', PStr ''1 TYPE A POS 0 0 0'')]]))
   \<and> setitem dispatch_env FourCInput_empty ''STRUCTURE ELEMENTS'' example_lines
       = Inr (legacy_only ''STRUCTURE ELEMENTS''
                (PList [PDict [(''element'', PStr ''1 TYPE A POS 0 0 0'')]]))
   \<and> setitem dispatch_env FourCInput_empty ''DNODE-NODE TOPOLOGY'' example_lines
       = Inr (legacy_only ''DNODE-NODE TOPOLOGY''
                (PList [PDict [(''node_topology'', PStr ''1 TYPE A POS 0 0 0'')]]))
   \<and> setitem dispatch_env FourCInput_empty ''FLUID DOMAIN'' example_lines
       = Inr (legacy_only ''FLUID DOMAIN'' (PDict [(''domain'', example_lines)]))
   \<and> setitem dispatch_env FourCInput_empty ''STRUCTURE KNOTVECTORS'' example_lines
       = Inr (legacy_only ''STRUCTURE KNOTVECTORS'' (PDict [(''knotvectors'', example_lines)]))
   \<and> setitem dispatch_env FourCInput_empty ''OLD MESH'' example_lines
       = Inl (NotImplementedError ''Legacy section OLD MESH is not implemented.'')
   \<and> setitem dispatch_env FourCInput_empty ''PARTICLES'' example_records
       = Inr (legacy_only ''PARTICLES'' example_records)
   \<and> setitem dispatch_env FourCInput_empty ''PARTICLES'' (PDict [])
       = Inr (legacy_only ''PARTICLES'' (PDict []))
   \<and> setitem dispatch_env FourCInput_empty ''PARTICLES'' (PInt 3)
       = Inl (TypeError ''Section PARTICLES is not a list or dict.'')
   \<and> ''TITLE'' \<notin> set (LEGACY_SECTIONS dispatch_env)
   \<and> (\<exists>msg. interpret_legacy_section dispatch_env ''TITLE'' [] = Inl (ValueError msg))"
proof -
  have l: "n \<in> set (LEGACY_SECTIONS dispatch_env)" and k: "\<not> is_section_known dispatch_env n"
    if "n \<in> set [''PARTICLES'', ''NODE COORDS'', ''STRUCTURE ELEMENTS'', ''DNODE-NODE TOPOLOGY'',
      ''FLUID DOMAIN'', ''STRUCTURE KNOTVECTORS'', ''OLD MESH'']" for n
    using that dispatch_names by (auto simp: list_all_iff)
  have t: "\<And>n v d. n \<in> set [''PARTICLES'', ''NODE COORDS'', ''STRUCTURE ELEMENTS'',
      ''DNODE-NODE TOPOLOGY'', ''FLUID DOMAIN'', ''STRUCTURE KNOTVECTORS'', ''OLD MESH''] \<Longrightarrow>
      (\<forall>xs. v = PList xs \<and> \<not> list_ex is_dict xs \<longrightarrow>
            (n = ''PARTICLES'' \<longrightarrow>
               setitem dispatch_env d n v
                 = store_legacy d n (decode_lines (read_particle dispatch_env) xs))
          \<and> (n = ''NODE COORDS'' \<longrightarrow>
               setitem dispatch_env d n v
                 = store_legacy d n (decode_lines (read_node dispatch_env) xs))
          \<and> (suffix ''ELEMENTS'' n \<longrightarrow>
               setitem dispatch_env d n v
                 = store_legacy d n (decode_lines (read_element dispatch_env) xs))
          \<and> (suffix ''NODE TOPOLOGY'' n \<longrightarrow>
               setitem dispatch_env d n v
                 = store_legacy d n (decode_lines (read_node_topology dispatch_env) xs))
          \<and> (suffix ''DOMAIN'' n \<longrightarrow>
               setitem dispatch_env d n v = store_legacy d n (read_domain dispatch_env xs))
          \<and> (suffix ''KNOTVECTORS'' n \<longrightarrow>
               setitem dispatch_env d n v = store_legacy d n (read_knotvectors dispatch_env xs))
          \<and> (n \<noteq> ''PARTICLES'' \<and> n \<noteq> ''NODE COORDS'' \<and> \<not> suffix ''ELEMENTS'' n
               \<and> \<not> suffix ''NODE TOPOLOGY'' n \<and> \<not> suffix ''DOMAIN'' n
               \<and> \<not> suffix ''KNOTVECTORS'' n \<longrightarrow>
               setitem dispatch_env d n v
                 = Inl (NotImplementedError (''Legacy section '' @ n @ '' is not implemented.''))))
       \<and> ((\<exists>xs. v = PList xs \<and> list_ex is_dict xs) \<or> is_dict v \<longrightarrow>
            setitem dispatch_env d n v
              = Inr (d\<lparr>priv_legacy_sections := AList.update n v (priv_legacy_sections d)\<rparr>))
       \<and> (\<not> is_list v \<and> \<not> is_dict v \<longrightarrow>
            setitem dispatch_env d n v
              = Inl (TypeError (''Section '' @ n @ '' is not a list or dict.'')))
       \<and> (\<forall>m xs. m \<notin> set (LEGACY_SECTIONS dispatch_env) \<longrightarrow>
            (\<exists>msg. interpret_legacy_section dispatch_env m xs = Inl (ValueError msg)))"
    by (rule setitem_legacy_section [OF l k dispatch_converter])
  have nd: "\<not> list_ex is_dict [PStr ''1 TYPE A POS 0 0 0'']"
    "\<not> list_ex is_dict [PStr ''1 TYPE A POS 0 0 0'', PStr ''2 TYPE'',  PStr ''x'']"
    by simp_all
  have w1: "setitem dispatch_env FourCInput_empty ''PARTICLES'' example_lines = Inr example_particles"
    using t [of "''PARTICLES''" example_lines FourCInput_empty] nd dispatch_results(1)
    by (simp add: example_lines_def)
  have w2: "setitem dispatch_env FourCInput_empty ''PARTICLES''
        (PList [PStr ''1 TYPE A POS 0 0 0'', PStr ''2 TYPE'',  PStr ''x''])
       = Inl (MalformedRecordError ''2 TYPE'')"
    using t [of "''PARTICLES''" "PList [PStr ''1 TYPE A POS 0 0 0'', PStr ''2 TYPE'',  PStr ''x'']"
               FourCInput_empty] nd dispatch_results(2)
    by simp
  have w3: "setitem dispatch_env FourCInput_empty ''NODE COORDS'' example_lines
       = Inr (legacy_only ''NODE COORDS'' (PList [PDict [(''node'', PStr ''1 TYPE A POS 0 0 0'')]]))"
    using t [of "''NODE COORDS''" example_lines FourCInput_empty] nd dispatch_results(3)
    by (simp add: example_lines_def)
  have w4: "setitem dispatch_env FourCInput_empty ''STRUCTURE ELEMENTS'' example_lines
       = Inr (legacy_only ''STRUCTURE ELEMENTS''
                (PList [PDict [(''element'', PStr ''1 TYPE A POS 0 0 0'')]]))"
    using t [of "''STRUCTURE ELEMENTS''" example_lines FourCInput_empty] nd dispatch_results(4)
      dispatch_suffixes(1)
    by (simp add: example_lines_def)
  have w5: "setitem dispatch_env FourCInput_empty ''DNODE-NODE TOPOLOGY'' example_lines
       = Inr (legacy_only ''DNODE-NODE TOPOLOGY''
                (PList [PDict [(''node_topology'', PStr ''1 TYPE A POS 0 0 0'')]]))"
    using t [of "''DNODE-NODE TOPOLOGY''" example_lines FourCInput_empty] nd dispatch_results(5)
      dispatch_suffixes(2)
    by (simp add: example_lines_def)
  have w6: "setitem dispatch_env FourCInput_empty ''FLUID DOMAIN'' example_lines
       = Inr (legacy_only ''FLUID DOMAIN'' (PDict [(''domain'', example_lines)]))"
    using t [of "''FLUID DOMAIN''" example_lines FourCInput_empty] nd dispatch_results(6)
      dispatch_suffixes(3)
    by (simp add: example_lines_def)
  have w7: "setitem dispatch_env FourCInput_empty ''STRUCTURE KNOTVECTORS'' example_lines
       = Inr (legacy_only ''STRUCTURE KNOTVECTORS'' (PDict [(''knotvectors'', example_lines)]))"
    using t [of "''STRUCTURE KNOTVECTORS''" example_lines FourCInput_empty] nd dispatch_results(7)
      dispatch_suffixes(4)
    by (simp add: example_lines_def)
  have w8: "setitem dispatch_env FourCInput_empty ''OLD MESH'' example_lines
       = Inl (NotImplementedError ''Legacy section OLD MESH is not implemented.'')"
    using t [of "''OLD MESH''" example_lines FourCInput_empty] nd dispatch_suffixes(5-8)
    by (simp add: example_lines_def)
  have w9: "setitem dispatch_env FourCInput_empty ''PARTICLES'' example_records
       = Inr (legacy_only ''PARTICLES'' example_records)"
    using t [of "''PARTICLES''" example_records FourCInput_empty]
    by (simp add: example_records_def legacy_only_def FourCInput_empty_def)
  have w10: "setitem dispatch_env FourCInput_empty ''PARTICLES'' (PDict [])
       = Inr (legacy_only ''PARTICLES'' (PDict []))"
    using t [of "''PARTICLES''" "PDict []" FourCInput_empty]
    by (simp add: legacy_only_def FourCInput_empty_def)
  have w11: "setitem dispatch_env FourCInput_empty ''PARTICLES'' (PInt 3)
       = Inl (TypeError ''Section PARTICLES is not a list or dict.'')"
    using t [of "''PARTICLES''" "PInt 3" FourCInput_empty] by simp
  have nt: "''TITLE'' \<notin> set (LEGACY_SECTIONS dispatch_env)"
    by (simp add: dispatch_env_def)
  have w12: "\<exists>msg. interpret_legacy_section dispatch_env ''TITLE'' [] = Inl (ValueError msg)"
    using t [of "''PARTICLES''" PNone FourCInput_empty] nt by simp
  show ?thesis
    using dispatch_names dispatch_converter w1 w2 w3 w4 w5 w6 w7 w8 w9 w10 w11 nt w12
    by blast
qed


text \<open>
  C1, as the code has it. After a successful \<open>d[n] = v\<close>, with \<open>c\<close> the converted value:
  for a name that satisfies \<open>is_section_known\<close>, \<open>d[n]\<close> returns \<open>c\<close>; for a legacy name,
  \<open>d[n]\<close> returns \<open>c\<close> when \<open>c\<close> is a dictionary or a list with a dictionary among its
  entries, and returns the interpreted records \<open>interpret_legacy_section n c\<close> when \<open>c\<close> is
  a list with no dictionary among its entries.
\<close>

theorem getitem_after_setitem:
  assumes "setitem env d n v = Inr d'"
  shows "\<exists>c. type_converter env v = Inr c
     \<and> (is_section_known env n \<longrightarrow> getitem env d' n = Inr c)
     \<and> (\<not> is_section_known env n \<longrightarrow>
          (\<forall>xs. c = PList xs \<and> \<not> list_ex is_dict xs \<longrightarrow>
                getitem env d' n = interpret_legacy_section env n xs)
          \<and> ((\<forall>xs. c = PList xs \<longrightarrow> list_ex is_dict xs) \<longrightarrow> getitem env d' n = Inr c))"
proof -
  obtain c where c: "type_converter env v = Inr c"
    using assms by (auto simp: setitem_def split: sum.splits)
  show ?thesis
  proof (cases "is_section_known env n")
    case True
    then have "d' = d\<lparr>priv_sections := AList.update n c (priv_sections d)\<rparr>"
      using assms c by (simp add: setitem_def)
    then have "getitem env d' n = Inr c"
      using True by (simp add: getitem_def update_conv')
    then show ?thesis using c True by simp
  next
    case False
    then show ?thesis
      using assms c
      by (cases c) (auto simp: setitem_def getitem_def update_conv' split: sum.splits if_splits)
  qed
qed

text \<open>
  The claim as the spec states it (\<open>d[n]\<close> after \<open>d[n] = v\<close> equals the converted \<open>v\<close>)
  fails for a legacy section given as text lines: the object returns the records.
\<close>

theorem getitem_after_setitem_counterexample:
  "setitem example_env FourCInput_empty ''PARTICLES'' example_lines = Inr example_particles
   \<and> type_converter example_env example_lines = Inr example_lines
   \<and> getitem example_env example_particles ''PARTICLES'' = Inr example_records
   \<and> example_records \<noteq> example_lines"
  by code_simp

theorem getitem_after_setitem_witness:
  "setitem example_env FourCInput_empty ''PARTICLES'' example_lines = Inr example_particles
   \<and> getitem example_env example_particles ''PARTICLES''
       = interpret_legacy_section example_env ''PARTICLES'' [PStr ''1 TYPE A POS 0 0 0'']
   \<and> setitem example_env FourCInput_empty ''TITLE'' (PStr ''beam'') = Inr example_title
   \<and> getitem example_env example_title ''TITLE'' = Inr (PStr ''beam'')"
proof -
  have a: "setitem example_env FourCInput_empty ''PARTICLES'' example_lines = Inr example_particles"
    by code_simp
  have b: "setitem example_env FourCInput_empty ''TITLE'' (PStr ''beam'') = Inr example_title"
    by code_simp
  have c: "getitem example_env example_particles ''PARTICLES''
       = interpret_legacy_section example_env ''PARTICLES'' [PStr ''1 TYPE A POS 0 0 0'']"
    using getitem_after_setitem [OF a] example_PARTICLES_legacy
    by (simp add: example_converter example_lines_def)
  have d: "getitem example_env example_title ''TITLE'' = Inr (PStr ''beam'')"
    using getitem_after_setitem [OF b] example_known by (simp add: example_converter)
  show ?thesis using a b c d by simp
qed

subsection \<open>Names in no catalog\<close>

lemma setitem_unknown_section:
  assumes "\<not> is_section_known env n" and "n \<notin> set (LEGACY_SECTIONS env)"
    and "type_converter env v = Inr c"
  shows "setitem env d n v =
     (case closest_match n (ALL_SECTIONS env) of
        Inl e \<Rightarrow> Inl e
      | Inr m \<Rightarrow> Inl (UnknownSectionException (unknown_section_message n m)))"
  using assms by (simp add: setitem_def)

text \<open>
  C7. A name in neither catalog should raise \<open>UnknownSectionException\<close> with the closest
  catalog name in the message. When no catalog name reaches the cutoff \<open>0.3\<close>, the list
  of matches is empty and indexing it raises \<open>IndexError\<close> before the exception is
  built: in the example catalog, at the name \<open>???\<close>.
\<close>

theorem setitem_unknown_no_match:
  "\<not> is_section_known example_env ''???'' \<and> ''???'' \<notin> set (LEGACY_SECTIONS example_env)
   \<and> get_close_matches (upper ''???'') (ALL_SECTIONS example_env) 1 (3 / 10) = Inr []
   \<and> setitem example_env FourCInput_empty ''???'' (PInt 1) = Inl IndexError"
  by code_simp

subsection \<open>Removing a section\<close>

lemma messages_differ: "not_set_message n m \<noteq> unknown_section_message n' m'"
  by (simp add: not_set_message_def unknown_section_message_def)

lemma closest_match_total:
  "(\<exists>e. closest_match key names = Inl e) \<or> (\<exists>m. closest_match key names = Inr m)"
  by (cases "closest_match key names") auto

text \<open>
  C6, as the code has it. For a name that is not set: when the name is in
  \<open>known_sections\<close> and a default is supplied, \<open>pop\<close> returns the default and leaves the
  object as it is; when the name is not in \<open>known_sections\<close>, \<open>pop\<close> raises, default or
  not; without a default \<open>pop\<close> always raises. Whenever the lookup of a close match
  finds one, the exception is \<open>UnknownSectionException\<close>, with the message
  \<open>Section '<n>' not set ...\<close> for a known name and \<open>Unknown section '<n>' ...\<close> for an
  unknown one, and the two messages are never equal.
\<close>

theorem pop_unset:
  assumes "\<not> contains d n"
  shows "(n \<in> set (known_sections env) \<longrightarrow> pop env d n (Some dv) = Inr (dv, d))
       \<and> (n \<notin> set (known_sections env) \<longrightarrow> (\<exists>e. pop env d n (Some dv) = Inl e))
       \<and> (\<exists>e. pop env d n None = Inl e)
       \<and> (\<forall>m. n \<in> set (known_sections env) \<and> closest_match n (get_section_names d) = Inr m \<longrightarrow>
             pop env d n None = Inl (UnknownSectionException (not_set_message n m)))
       \<and> (\<forall>m. n \<notin> set (known_sections env) \<and> closest_match n (ALL_SECTIONS env) = Inr m \<longrightarrow>
             pop env d n None = Inl (UnknownSectionException (unknown_section_message n m))
             \<and> pop env d n (Some dv) = Inl (UnknownSectionException (unknown_section_message n m)))
       \<and> (\<forall>m m'. not_set_message n m \<noteq> unknown_section_message n m')"
proof -
  have s: "map_of (priv_sections d) n = None" and l: "map_of (priv_legacy_sections d) n = None"
    using assms by (simp_all add: contains_def map_of_None_iff_keys)
  show ?thesis
    using closest_match_total [of n "get_section_names d"]
      closest_match_total [of n "ALL_SECTIONS env"]
    by (auto simp: pop_def s l messages_differ split: sum.splits)
qed

text \<open>
  The claim as the spec states it (the default is returned whenever one is supplied)
  fails for a name outside \<open>known_sections\<close>.
\<close>

theorem pop_unset_counterexample:
  "\<not> contains FourCInput_empty ''MATERIAL''
   \<and> pop example_env FourCInput_empty ''MATERIAL'' (Some PNone)
       = Inl (UnknownSectionException (unknown_section_message ''MATERIAL'' ''MATERIALS''))
   \<and> pop example_env FourCInput_empty ''MATERIAL'' (Some PNone) \<noteq> Inr (PNone, FourCInput_empty)"
  by code_simp

theorem pop_unset_witness:
  "\<not> contains example_title ''TITL'' \<and> \<not> contains example_title ''INCLUDES''
   \<and> ''INCLUDES'' \<in> set (known_sections example_env)
   \<and> ''TITL'' \<notin> set (known_sections example_env)
   \<and> pop example_env example_title ''INCLUDES'' (Some PNone) = Inr (PNone, example_title)
   \<and> closest_match ''INCLUDES'' (get_section_names example_title) = Inr ''TITLE''
   \<and> pop example_env example_title ''INCLUDES'' None
        = Inl (UnknownSectionException (not_set_message ''INCLUDES'' ''TITLE''))
   \<and> closest_match ''TITL'' (ALL_SECTIONS example_env) = Inr ''TITLE''
   \<and> pop example_env example_title ''TITL'' (Some PNone)
        = Inl (UnknownSectionException (unknown_section_message ''TITL'' ''TITLE''))"
proof -
  have a: "\<not> contains example_title ''TITL''" and b: "\<not> contains example_title ''INCLUDES''"
    by (simp_all add: contains_def example_title_def dict_keys_def)
  have k: "''INCLUDES'' \<in> set (known_sections example_env)"
    and u: "''TITL'' \<notin> set (known_sections example_env)"
    by (simp_all add: known_sections_def example_env_def)
  have m1: "closest_match ''INCLUDES'' (get_section_names example_title) = Inr ''TITLE''"
    by code_simp
  have m2: "closest_match ''TITL'' (ALL_SECTIONS example_env) = Inr ''TITLE''"
    by code_simp
  note t1 = pop_unset [OF b, of example_env PNone]
  note t2 = pop_unset [OF a, of example_env PNone]
  show ?thesis using a b k u m1 m2 t1 t2 by blast
qed

subsection \<open>The two partitions\<close>

lemma keys_update: "set (dict_keys (AList.update k v al)) = insert k (set (dict_keys al))"
  using dom_update [of k v al] by (simp add: dict_keys_def)

lemma keys_delete: "set (dict_keys (AList.delete k al)) = set (dict_keys al) - {k}"
  by (simp add: dict_keys_def delete_keys)

lemma setitem_Inr_cases:
  assumes "setitem env d k v = Inr d'"
  shows "(\<exists>c. is_section_known env k
              \<and> d' = d\<lparr>priv_sections := AList.update k c (priv_sections d)\<rparr>)
       \<or> (\<exists>w. \<not> is_section_known env k \<and> k \<in> set (LEGACY_SECTIONS env)
              \<and> d' = d\<lparr>priv_legacy_sections := AList.update k w (priv_legacy_sections d)\<rparr>)"
proof -
  obtain c where c: "type_converter env v = Inr c"
    using assms by (auto simp: setitem_def split: sum.splits)
  show ?thesis
    using assms c
    by (cases c) (auto simp: setitem_def split: sum.splits if_splits)
qed

lemma pop_Inr_cases:
  assumes "pop env d k dv = Inr (v, d')"
  shows "(map_of (priv_sections d) k = Some v
            \<and> d' = d\<lparr>priv_sections := AList.delete k (priv_sections d)\<rparr>)
       \<or> (map_of (priv_sections d) k = None \<and> map_of (priv_legacy_sections d) k = Some v
            \<and> d' = d\<lparr>priv_legacy_sections := AList.delete k (priv_legacy_sections d)\<rparr>)
       \<or> (map_of (priv_sections d) k = None \<and> map_of (priv_legacy_sections d) k = None
            \<and> dv = Some v \<and> d' = d)"
  using assms by (auto simp: pop_def split: option.splits if_splits sum.splits)

lemma well_classified_disjoint: "well_classified env d \<Longrightarrow> partitions_disjoint d"
  by (auto simp: well_classified_def partitions_disjoint_def)

lemma well_classified_empty: "well_classified env FourCInput_empty"
  by (simp add: well_classified_def FourCInput_empty_def dict_keys_def)

lemma well_classified_setitem:
  "well_classified env d \<Longrightarrow> setitem env d k v = Inr d' \<Longrightarrow> well_classified env d'"
  by (auto dest!: setitem_Inr_cases simp: well_classified_def keys_update)

lemma well_classified_pop:
  "well_classified env d \<Longrightarrow> pop env d k dv = Inr (v, d') \<Longrightarrow> well_classified env d'"
  by (auto dest!: pop_Inr_cases simp: well_classified_def keys_delete)

lemma well_classified_setitem_loop:
  "well_classified env d \<Longrightarrow> well_classified env (fst (setitem_loop env d kvs))"
proof (induction kvs arbitrary: d)
  case Nil
  then show ?case by simp
next
  case (Cons kv kvs)
  obtain k v where kv: "kv = (k, v)" by (cases kv)
  show ?case
  proof (cases "setitem env d k v")
    case (Inl e)
    then show ?thesis using Cons.prems kv by simp
  next
    case (Inr d1)
    then show ?thesis
      using Cons.IH [OF well_classified_setitem [OF Cons.prems Inr]] kv by simp
  qed
qed

lemma well_classified_overwrite:
  "well_classified env d \<Longrightarrow> well_classified env (fst (overwrite_sections env d other))"
  by (cases other) (simp_all add: overwrite_sections_def well_classified_setitem_loop)

lemma well_classified_combine:
  "well_classified env d \<Longrightarrow> well_classified env (fst (combine_sections env d other))"
  by (cases other)
     (simp_all add: combine_sections_def Let_def well_classified_overwrite)

lemma well_classified_split_loop:
  "well_classified env r \<Longrightarrow> well_classified env s \<Longrightarrow>
   split_loop env names (r, s) = Inr (r', s') \<Longrightarrow> well_classified env r' \<and> well_classified env s'"
proof (induction names arbitrary: r s)
  case Nil
  then show ?case by simp
next
  case (Cons n names)
  from Cons.prems(3) obtain v r1 where p: "pop env r n None = Inr (v, r1)"
    by (auto split: sum.splits)
  from Cons.prems(3) p obtain s1 where s: "setitem env s n v = Inr s1"
    by (auto split: sum.splits)
  have rest: "split_loop env names (r1, s1) = Inr (r', s')"
    using Cons.prems(3) p s by simp
  show ?case
    by (rule Cons.IH [OF well_classified_pop [OF Cons.prems(1) p]
          well_classified_setitem [OF Cons.prems(2) s] rest])
qed

lemma well_classified_apply_operation:
  "well_classified env d \<Longrightarrow> well_classified env (apply_operation env d operation)"
proof (cases operation)
  case (Set k v)
  assume "well_classified env d"
  then show ?thesis using Set
    by (auto simp: well_classified_setitem split: sum.splits)
next
  case (Pop k dv)
  assume "well_classified env d"
  then show ?thesis using Pop
    by (auto simp: well_classified_pop split: sum.splits)
next
  case (Combine other)
  assume "well_classified env d"
  then show ?thesis using Combine by (simp add: well_classified_combine)
next
  case (Overwrite other)
  assume "well_classified env d"
  then show ?thesis using Overwrite by (simp add: well_classified_overwrite)
next
  case (Split names)
  assume "well_classified env d"
  then show ?thesis using Split by (simp add: split_def)
qed

lemma well_classified_init:
  "FourCInput_init env s = Inr d \<Longrightarrow> well_classified env d"
proof (cases s)
  case None
  assume "FourCInput_init env s = Inr d"
  then show ?thesis using None by (simp add: FourCInput_init_def well_classified_empty)
next
  case (Some kvs)
  assume a: "FourCInput_init env s = Inr d"
  have "well_classified env (fst (setitem_loop env FourCInput_empty kvs))"
    by (rule well_classified_setitem_loop [OF well_classified_empty])
  then show ?thesis using a Some
    by (auto simp: FourCInput_init_def split: prod.splits option.splits)
qed

lemma well_classified_run:
  "well_classified env d \<Longrightarrow> well_classified env (foldl (apply_operation env) d ops)"
  by (induction ops arbitrary: d) (simp_all add: well_classified_apply_operation)

text \<open>
  C2. An object is built by the constructor, and then changed by any sequence of calls
  of \<open>__setitem__\<close>, \<open>pop\<close>, \<open>combine_sections\<close>, \<open>overwrite_sections\<close> and \<open>split\<close>,
  whether they return or raise: no name is then a key of both \<open>_sections\<close> and
  \<open>_legacy_sections\<close>, in the object and in the two objects a \<open>split\<close> of it returns.
\<close>

theorem partitions_stay_disjoint:
  assumes "FourCInput_init env s = Inr d0"
  shows "partitions_disjoint (foldl (apply_operation env) d0 ops)
     \<and> (\<forall>names root spl.
           snd (split env (foldl (apply_operation env) d0 ops) names) = Inr (root, spl) \<longrightarrow>
           partitions_disjoint root \<and> partitions_disjoint spl)"
proof -
  let ?d = "foldl (apply_operation env) d0 ops"
  have wc: "well_classified env ?d"
    by (rule well_classified_run [OF well_classified_init [OF assms]])
  have "partitions_disjoint root \<and> partitions_disjoint spl"
    if "snd (split env ?d names) = Inr (root, spl)" for names root spl
  proof -
    from that have "split_loop env names (?d, FourCInput_empty) = Inr (root, spl)"
      by (simp add: split_def copy_def)
    from well_classified_split_loop [OF wc well_classified_empty this]
    show ?thesis by (blast intro: well_classified_disjoint)
  qed
  then show ?thesis using well_classified_disjoint [OF wc] by blast
qed

lemma example_run:
  "foldl (apply_operation example_env) FourCInput_empty example_operations = example_document"
  by code_simp

lemma example_split:
  "snd (split example_env example_document [''PARTICLES''])
     = Inr (\<lparr>priv_sections = [(''TITLE'', PStr ''plate'')], priv_legacy_sections = []\<rparr>,
            example_particles)"
  by code_simp

theorem partitions_stay_disjoint_witness:
  "FourCInput_init example_env None = Inr FourCInput_empty
   \<and> foldl (apply_operation example_env) FourCInput_empty example_operations = example_document
   \<and> partitions_disjoint example_document
   \<and> snd (split example_env example_document [''PARTICLES''])
       = Inr (\<lparr>priv_sections = [(''TITLE'', PStr ''plate'')], priv_legacy_sections = []\<rparr>,
              example_particles)
   \<and> partitions_disjoint \<lparr>priv_sections = [(''TITLE'', PStr ''plate'')], priv_legacy_sections = []\<rparr>
   \<and> partitions_disjoint example_particles"
proof -
  have i: "FourCInput_init example_env None = Inr FourCInput_empty"
    by (simp add: FourCInput_init_def)
  from partitions_stay_disjoint [OF i, of example_operations] example_run example_split
  show ?thesis using i by auto
qed

subsection \<open>Splitting\<close>

lemma contains_iff:
  "contains d n \<longleftrightarrow>
     n \<in> set (dict_keys (priv_sections d)) \<or> n \<in> set (dict_keys (priv_legacy_sections d))"
  by (auto simp: contains_def)

lemma pop_present:
  assumes "pop env r n None = Inr (v, r1)" and "partitions_disjoint r"
  shows "partitions_disjoint r1 \<and> \<not> contains r1 n
       \<and> (\<forall>k. contains r1 k \<longrightarrow> contains r k)"
  using pop_Inr_cases [OF assms(1)] assms(2)
  by (auto simp: partitions_disjoint_def contains_iff keys_delete dest: map_of_Some_keys
           simp: map_of_None_iff_keys)

lemma setitem_contains:
  assumes "setitem env s n v = Inr s1"
  shows "contains s1 k \<longleftrightarrow> k = n \<or> contains s k"
  using setitem_Inr_cases [OF assms] by (auto simp: contains_iff keys_update)

lemma split_loop_contains:
  "split_loop env names (r, s) = Inr (r', s') \<Longrightarrow> partitions_disjoint r \<Longrightarrow>
   (\<forall>n \<in> set names. \<not> contains r' n \<and> contains s' n)
   \<and> (\<forall>k. contains r' k \<longrightarrow> contains r k) \<and> (\<forall>k. contains s k \<longrightarrow> contains s' k)"
proof (induction names arbitrary: r s)
  case Nil
  then show ?case by simp
next
  case (Cons n names)
  from Cons.prems(1) obtain v r1 where p: "pop env r n None = Inr (v, r1)"
    by (auto split: sum.splits)
  from Cons.prems(1) p obtain s1 where s: "setitem env s n v = Inr s1"
    by (auto split: sum.splits)
  have rest: "split_loop env names (r1, s1) = Inr (r', s')"
    using Cons.prems(1) p s by simp
  note pp = pop_present [OF p Cons.prems(2)]
  note ih = Cons.IH [OF rest conjunct1 [OF pp]]
  show ?case using ih pp setitem_contains [OF s] by auto
qed

text \<open>
  C5, as the code has it. \<open>split\<close> pops from a deep copy: the receiver is left as it
  was, with every section it had. When the call returns, it is the first object
  returned (the remainder) that contains none of the names, and the second that
  contains them all.
\<close>

theorem split_leaves_source:
  "fst (split env d names) = d
   \<and> (\<forall>root spl. partitions_disjoint d \<and> snd (split env d names) = Inr (root, spl) \<longrightarrow>
         (\<forall>n \<in> set names. \<not> contains root n \<and> contains spl n))"
proof -
  have "\<forall>n \<in> set names. \<not> contains root n \<and> contains spl n"
    if "partitions_disjoint d" and "snd (split env d names) = Inr (root, spl)" for root spl
  proof -
    from that(2) have "split_loop env names (d, FourCInput_empty) = Inr (root, spl)"
      by (simp add: split_def copy_def)
    from split_loop_contains [OF this that(1)] show ?thesis by blast
  qed
  then show ?thesis by (simp add: split_def)
qed

text \<open>
  The claim as the spec states it (after \<open>d.split(names)\<close> the receiver no longer
  contains the names) fails: the receiver still contains them.
\<close>

theorem split_leaves_source_counterexample:
  "contains example_document ''PARTICLES''
   \<and> snd (split example_env example_document [''PARTICLES''])
       = Inr (\<lparr>priv_sections = [(''TITLE'', PStr ''plate'')], priv_legacy_sections = []\<rparr>,
              example_particles)
   \<and> fst (split example_env example_document [''PARTICLES'']) = example_document
   \<and> contains (fst (split example_env example_document [''PARTICLES''])) ''PARTICLES''"
  by code_simp

theorem split_leaves_source_witness:
  "partitions_disjoint example_document
   \<and> snd (split example_env example_document [''PARTICLES''])
       = Inr (\<lparr>priv_sections = [(''TITLE'', PStr ''plate'')], priv_legacy_sections = []\<rparr>,
              example_particles)
   \<and> \<not> contains \<lparr>priv_sections = [(''TITLE'', PStr ''plate'')], priv_legacy_sections = []\<rparr> ''PARTICLES''
   \<and> contains example_particles ''PARTICLES''"
proof -
  have a: "partitions_disjoint example_document"
    by (simp add: partitions_disjoint_def example_document_def dict_keys_def)
  note b = example_split
  from split_leaves_source [of example_env example_document "[''PARTICLES'']"] a b
  show ?thesis by auto
qed

subsection \<open>Export\<close>


lemma dict_union_Cons: "dict_union a ((k, v) # b) = dict_union (AList.update k v a) b"
  by (simp add: dict_union_def)

lemma dict_union_Nil: "dict_union a [] = a"
  by (simp add: dict_union_def)


lemma map_of_dict_union:
  "distinct (dict_keys b) \<Longrightarrow> map_of (dict_union a b) = map_of a ++ map_of b"
proof (induction b arbitrary: a)
  case Nil
  then show ?case by (simp add: dict_union_Nil)
next
  case (Cons kv b)
  obtain k v where kv: "kv = (k, v)" by (cases kv)
  have d: "distinct (dict_keys b)" and n: "k \<notin> dom (map_of b)"
    using Cons.prems kv by (auto simp: dict_keys_def dom_map_of_conv_image_fst)
  have "map_of (dict_union a (kv # b)) = map_of (AList.update k v a) ++ map_of b"
    using Cons.IH [OF d, of "AList.update k v a"] kv by (simp only: dict_union_Cons)
  also have "\<dots> = (map_of a)(k \<mapsto> v) ++ map_of b"
    by (simp only: update_conv')
  also have "\<dots> = map_of a ++ map_of (kv # b)"
    using n kv by (auto simp: map_add_def fun_eq_iff split: option.splits)
  finally show ?case .
qed

lemma distinct_dict_union:
  "distinct (dict_keys a) \<Longrightarrow> distinct (dict_keys (dict_union a b))"
proof (induction b arbitrary: a)
  case Nil
  then show ?case by (simp add: dict_union_Nil)
next
  case (Cons kv b)
  obtain k v where kv: "kv = (k, v)" by (cases kv)
  have "distinct (dict_keys (AList.update k v a))"
    using Cons.prems distinct_update [of a k v] by (simp add: dict_keys_def)
  from Cons.IH [OF this] show ?case using kv by (simp add: dict_union_Cons)
qed































subsection \<open>Combining\<close>

lemma getitem_stored_sections:
  "is_section_known env k \<Longrightarrow>
   getitem env (d\<lparr>priv_sections := AList.update k c (priv_sections d)\<rparr>) k = Inr c"
  by (simp add: getitem_def update_conv')

lemma getitem_stored_legacy:
  "\<not> is_section_known env k \<Longrightarrow>
   getitem env (d\<lparr>priv_legacy_sections := AList.update k w (priv_legacy_sections d)\<rparr>) k = Inr w"
  by (simp add: getitem_def update_conv')

lemma settled_setitem:
  assumes "settled env (k, v)"
  shows "(is_section_known env k
            \<and> (\<forall>d. setitem env d k v = Inr (d\<lparr>priv_sections := AList.update k v (priv_sections d)\<rparr>)))
       \<or> (\<not> is_section_known env k
            \<and> (\<forall>d. setitem env d k v
                    = Inr (d\<lparr>priv_legacy_sections := AList.update k v (priv_legacy_sections d)\<rparr>)))"
  using assms by (cases v) (auto simp: settled_def setitem_def split: if_splits)

lemma settled_setitem_getitem:
  assumes "settled env (k, v)"
  shows "\<exists>d1. setitem env d k v = Inr d1 \<and> getitem env d1 k = Inr v"
  using settled_setitem [OF assms]
  by (auto simp: getitem_stored_sections getitem_stored_legacy)

lemma setitem_other_key:
  assumes "setitem env d k' v = Inr d'" and "k \<noteq> k'"
  shows "map_of (priv_sections d') k = map_of (priv_sections d) k
       \<and> map_of (priv_legacy_sections d') k = map_of (priv_legacy_sections d) k"
  using setitem_Inr_cases [OF assms(1)] assms(2) by (auto simp: update_conv')

lemma getitem_Inr_lookup:
  "getitem env d k = Inr x \<longleftrightarrow>
     (if is_section_known env k then map_of (priv_sections d) k = Some x
      else map_of (priv_legacy_sections d) k = Some x)"
  by (auto simp: getitem_def Let_def split: option.splits sum.splits)

lemma setitem_loop_merges:
  "distinct (dict_keys kvs) \<Longrightarrow> list_all (settled env) kvs \<Longrightarrow>
   \<exists>d'. setitem_loop env d kvs = (d', None)
      \<and> (\<forall>k. contains d' k \<longleftrightarrow> contains d k \<or> k \<in> set (dict_keys kvs))
      \<and> (\<forall>k. k \<notin> set (dict_keys kvs) \<longrightarrow>
             map_of (priv_sections d') k = map_of (priv_sections d) k
           \<and> map_of (priv_legacy_sections d') k = map_of (priv_legacy_sections d) k)
      \<and> (\<forall>kv \<in> set kvs. getitem env d' (fst kv) = Inr (snd kv))"
proof (induction kvs arbitrary: d)
  case Nil
  then show ?case by (simp add: dict_keys_def)
next
  case (Cons kv kvs)
  obtain k v where kv: "kv = (k, v)" by (cases kv)
  have st: "settled env (k, v)" using Cons.prems(2) kv by simp
  from settled_setitem_getitem [OF st, of d] obtain d1 where
    d1: "setitem env d k v = Inr d1" and g1: "getitem env d1 k = Inr v"
    by blast
  have dist: "distinct (dict_keys kvs)" and knew: "k \<notin> set (dict_keys kvs)"
    using Cons.prems(1) kv by (simp_all add: dict_keys_def)
  have acc: "list_all (settled env) kvs" using Cons.prems(2) by simp
  from Cons.IH [OF dist acc, of d1] obtain d' where
    loop: "setitem_loop env d1 kvs = (d', None)"
    and cont: "\<forall>k. contains d' k \<longleftrightarrow> contains d1 k \<or> k \<in> set (dict_keys kvs)"
    and keep: "\<forall>k. k \<notin> set (dict_keys kvs) \<longrightarrow>
             map_of (priv_sections d') k = map_of (priv_sections d1) k
           \<and> map_of (priv_legacy_sections d') k = map_of (priv_legacy_sections d1) k"
    and vals: "\<forall>kv \<in> set kvs. getitem env d' (fst kv) = Inr (snd kv)"
    by blast
  have r1: "setitem_loop env d (kv # kvs) = (d', None)"
    using kv d1 loop by simp
  have r2: "\<forall>k'. contains d' k' \<longleftrightarrow> contains d k' \<or> k' \<in> set (dict_keys (kv # kvs))"
    using cont setitem_contains [OF d1] kv by (auto simp: dict_keys_def)
  have r3: "\<forall>k'. k' \<notin> set (dict_keys (kv # kvs)) \<longrightarrow>
             map_of (priv_sections d') k' = map_of (priv_sections d) k'
           \<and> map_of (priv_legacy_sections d') k' = map_of (priv_legacy_sections d) k'"
    using keep setitem_other_key [OF d1] kv by (auto simp: dict_keys_def)
  have first: "getitem env d' k = Inr v"
    using g1 keep knew by (simp add: getitem_Inr_lookup)
  have r4: "\<forall>kv' \<in> set (kv # kvs). getitem env d' (fst kv') = Inr (snd kv')"
    using vals first kv by auto
  show ?case using r1 r2 r3 r4 by blast
qed

lemma keys_dict_union: "set (dict_keys (dict_union a b)) = set (dict_keys a) \<union> set (dict_keys b)"
proof (induction b arbitrary: a)
  case Nil
  then show ?case by (simp add: dict_union_Nil dict_keys_def)
next
  case (Cons kv b)
  obtain k v where kv: "kv = (k, v)" by (cases kv)
  show ?case using Cons.IH [of "AList.update k v a"] kv
    by (simp add: dict_union_Cons keys_update) (auto simp: dict_keys_def)
qed

lemma set_get_section_names:
  "set (get_section_names d)
     = set (dict_keys (priv_legacy_sections d)) \<union> set (dict_keys (priv_sections d))"
  by (simp add: get_section_names_def)

lemma contains_names: "contains d k \<longleftrightarrow> k \<in> set (get_section_names d)"
  by (auto simp: contains_def set_get_section_names)

lemma contains_items: "contains d k \<longleftrightarrow> k \<in> set (dict_keys (items d))"
  by (auto simp: contains_def items_def sections_def keys_dict_union)

text \<open>
  C3. When the receiver and the other object share a section name,
  \<open>combine_sections\<close> raises \<open>ValueError\<close> and the receiver is exactly what it was. When
  they share none (and the sections of the other object are settled), the call
  returns, the receiver then contains the names of both, keeps every section it had,
  and \<open>d[k]\<close> returns, for every item \<open>(k, v)\<close> of the other object, the value \<open>v\<close>.
\<close>

theorem combine_sections_all_or_nothing:
  "(set (get_section_names d) \<inter> set (get_section_names e) \<noteq> {} \<longrightarrow>
      (\<exists>msg. combine_sections env d (OtherInput e) = (d, Some (ValueError msg))))
   \<and> (set (get_section_names d) \<inter> set (get_section_names e) = {}
        \<and> distinct (dict_keys (items e)) \<and> list_all (settled env) (items e) \<longrightarrow>
      (\<exists>d'. combine_sections env d (OtherInput e) = (d', None)
         \<and> (\<forall>k. contains d' k \<longleftrightarrow> contains d k \<or> contains e k)
         \<and> (\<forall>k. contains d k \<longrightarrow>
                map_of (priv_sections d') k = map_of (priv_sections d) k
              \<and> map_of (priv_legacy_sections d') k = map_of (priv_legacy_sections d) k)
         \<and> (\<forall>kv \<in> set (items e). getitem env d' (fst kv) = Inr (snd kv))))"
proof (intro conjI impI)
  assume "set (get_section_names d) \<inter> set (get_section_names e) \<noteq> {}"
  then have "filter (\<lambda>n. n \<in> set (get_section_names e)) (remdups (get_section_names d)) \<noteq> []"
    by (auto simp: filter_empty_conv)
  then show "\<exists>msg. combine_sections env d (OtherInput e) = (d, Some (ValueError msg))"
    by (simp add: combine_sections_def Let_def)
next
  assume a: "set (get_section_names d) \<inter> set (get_section_names e) = {}
        \<and> distinct (dict_keys (items e)) \<and> list_all (settled env) (items e)"
  then have "filter (\<lambda>n. n \<in> set (get_section_names e)) (remdups (get_section_names d)) = []"
    by (auto simp: filter_empty_conv)
  then have c: "combine_sections env d (OtherInput e) = setitem_loop env d (items e)"
    by (simp add: combine_sections_def Let_def overwrite_sections_def)
  from a have dis: "\<forall>k. contains d k \<longrightarrow> k \<notin> set (dict_keys (items e))"
    by (auto simp: contains_names contains_items [symmetric])
  from setitem_loop_merges [of "items e" env d] a obtain d' where
    "setitem_loop env d (items e) = (d', None)"
    "\<forall>k. contains d' k \<longleftrightarrow> contains d k \<or> k \<in> set (dict_keys (items e))"
    "\<forall>k. k \<notin> set (dict_keys (items e)) \<longrightarrow>
             map_of (priv_sections d') k = map_of (priv_sections d) k
           \<and> map_of (priv_legacy_sections d') k = map_of (priv_legacy_sections d) k"
    "\<forall>kv \<in> set (items e). getitem env d' (fst kv) = Inr (snd kv)"
    by blast
  then show "\<exists>d'. combine_sections env d (OtherInput e) = (d', None)
         \<and> (\<forall>k. contains d' k \<longleftrightarrow> contains d k \<or> contains e k)
         \<and> (\<forall>k. contains d k \<longrightarrow>
                map_of (priv_sections d') k = map_of (priv_sections d) k
              \<and> map_of (priv_legacy_sections d') k = map_of (priv_legacy_sections d) k)
         \<and> (\<forall>kv \<in> set (items e). getitem env d' (fst kv) = Inr (snd kv))"
    using c dis by (auto simp: contains_items [symmetric])
qed

lemma example_collision:
  "set (get_section_names example_document) \<inter> set (get_section_names example_particles) \<noteq> {}"
  by code_simp

lemma example_no_collision:
  "set (get_section_names example_title) \<inter> set (get_section_names example_particles) = {}
   \<and> distinct (dict_keys (items example_particles))
   \<and> list_all (settled example_env) (items example_particles)"
  by code_simp

lemma example_combine:
  "combine_sections example_env example_title (OtherInput example_particles) = (example_built, None)"
  by code_simp

lemma example_items_particles: "items example_particles = [(''PARTICLES'', example_records)]"
  by code_simp

theorem combine_sections_all_or_nothing_witness:
  "set (get_section_names example_document) \<inter> set (get_section_names example_particles) \<noteq> {}
   \<and> (\<exists>msg. combine_sections example_env example_document (OtherInput example_particles)
               = (example_document, Some (ValueError msg)))
   \<and> set (get_section_names example_title) \<inter> set (get_section_names example_particles) = {}
   \<and> distinct (dict_keys (items example_particles))
   \<and> list_all (settled example_env) (items example_particles)
   \<and> combine_sections example_env example_title (OtherInput example_particles) = (example_built, None)
   \<and> contains example_built ''PARTICLES'' \<and> contains example_built ''TITLE''
   \<and> map_of (priv_sections example_built) ''TITLE'' = map_of (priv_sections example_title) ''TITLE''
   \<and> getitem example_env example_built ''PARTICLES'' = Inr example_records"
proof -
  note t1 = combine_sections_all_or_nothing [of example_document example_particles example_env]
  note t2 = combine_sections_all_or_nothing [of example_title example_particles example_env]
  have a: "\<exists>msg. combine_sections example_env example_document (OtherInput example_particles)
               = (example_document, Some (ValueError msg))"
    using t1 example_collision by blast
  from t2 example_no_collision example_combine
  have b: "(\<forall>k. contains example_built k \<longleftrightarrow> contains example_title k \<or> contains example_particles k)
         \<and> (\<forall>k. contains example_title k \<longrightarrow>
                map_of (priv_sections example_built) k = map_of (priv_sections example_title) k
              \<and> map_of (priv_legacy_sections example_built) k
                  = map_of (priv_legacy_sections example_title) k)
         \<and> (\<forall>kv \<in> set (items example_particles).
                getitem example_env example_built (fst kv) = Inr (snd kv))"
    by auto
  have c1: "contains example_title ''TITLE''" and c2: "contains example_particles ''PARTICLES''"
    by (simp_all add: contains_def example_title_def example_particles_def dict_keys_def)
  have g: "getitem example_env example_built ''PARTICLES'' = Inr example_records"
    using b by (simp add: example_items_particles)
  show ?thesis
    using example_collision a example_no_collision example_combine b c1 c2 g by blast
qed

subsection \<open>Splitting and combining again\<close>

lemma dom_map_of_keys: "dom (map_of al) = set (dict_keys al)"
  by (simp add: dom_map_of_conv_image_fst dict_keys_def)

lemma dom_section_map: "dom (section_map d) = {k. contains d k}"
  by (auto simp: section_map_def contains_iff dom_map_of_keys)

lemma section_map_empty: "section_map FourCInput_empty = Map.empty"
  by (simp add: section_map_def FourCInput_empty_def)

lemma distinct_keys_update: "distinct (dict_keys al) \<Longrightarrow> distinct (dict_keys (AList.update k v al))"
  using distinct_update [of al k v] by (simp add: dict_keys_def)

lemma distinct_keys_delete: "distinct (dict_keys al) \<Longrightarrow> distinct (dict_keys (AList.delete k al))"
  using distinct_delete [of al k] by (simp add: dict_keys_def)

lemma settled_setitem_map:
  assumes "settled env (k, v)" and "\<not> contains d k"
    and "partitions_disjoint d" and "keys_distinct d"
  shows "\<exists>d1. setitem env d k v = Inr d1 \<and> partitions_disjoint d1 \<and> keys_distinct d1
            \<and> section_map d1 = (section_map d)(k \<mapsto> v)"
proof -
  have nk: "k \<notin> set (dict_keys (priv_sections d))"
    and nl: "k \<notin> set (dict_keys (priv_legacy_sections d))"
    using assms(2) by (simp_all add: contains_iff)
  have ml: "map_of (priv_legacy_sections d) k = None"
    using nl by (simp add: map_of_None_iff_keys)
  from settled_setitem [OF assms(1)] show ?thesis
  proof (elim disjE conjE)
    assume "\<forall>d. setitem env d k v = Inr (d\<lparr>priv_sections := AList.update k v (priv_sections d)\<rparr>)"
    then have s: "setitem env d k v = Inr (d\<lparr>priv_sections := AList.update k v (priv_sections d)\<rparr>)"
      by simp
    have "section_map (d\<lparr>priv_sections := AList.update k v (priv_sections d)\<rparr>)
            = (section_map d)(k \<mapsto> v)"
      using ml by (auto simp: section_map_def update_conv' map_add_def fun_eq_iff split: option.splits)
    then show ?thesis
      using s assms(3,4) nl
      by (auto simp: partitions_disjoint_def keys_distinct_def keys_update distinct_keys_update)
  next
    assume "\<forall>d. setitem env d k v
                    = Inr (d\<lparr>priv_legacy_sections := AList.update k v (priv_legacy_sections d)\<rparr>)"
    then have s: "setitem env d k v
          = Inr (d\<lparr>priv_legacy_sections := AList.update k v (priv_legacy_sections d)\<rparr>)"
      by simp
    have "section_map (d\<lparr>priv_legacy_sections := AList.update k v (priv_legacy_sections d)\<rparr>)
            = (section_map d)(k \<mapsto> v)"
      by (auto simp: section_map_def update_conv' map_add_def fun_eq_iff split: option.splits)
    then show ?thesis
      using s assms(3,4) nk
      by (auto simp: partitions_disjoint_def keys_distinct_def keys_update distinct_keys_update)
  qed
qed

lemma pop_present_map:
  assumes "contains r k" and "partitions_disjoint r" and "keys_distinct r"
  shows "\<exists>v r1. pop env r k None = Inr (v, r1) \<and> section_map r k = Some v
            \<and> section_map r1 = (section_map r)(k := None)
            \<and> partitions_disjoint r1 \<and> keys_distinct r1"
proof (cases "map_of (priv_sections r) k")
  case (Some v)
  then have p: "pop env r k None = Inr (v, r\<lparr>priv_sections := AList.delete k (priv_sections r)\<rparr>)"
    by (simp add: pop_def)
  have "k \<in> set (dict_keys (priv_sections r))" using Some by (rule map_of_Some_keys)
  then have "k \<notin> set (dict_keys (priv_legacy_sections r))"
    using assms(2) by (auto simp: partitions_disjoint_def)
  then have ml: "map_of (priv_legacy_sections r) k = None"
    by (simp add: map_of_None_iff_keys)
  have a: "section_map r k = Some v" using Some ml by (simp add: section_map_def map_add_def)
  have b: "section_map (r\<lparr>priv_sections := AList.delete k (priv_sections r)\<rparr>)
             = (section_map r)(k := None)"
    using ml by (auto simp: section_map_def delete_conv' map_add_def fun_eq_iff split: option.splits)
  show ?thesis
    using p a b assms(2,3)
    by (auto simp: partitions_disjoint_def keys_distinct_def keys_delete distinct_keys_delete)
next
  case None
  then have "k \<notin> set (dict_keys (priv_sections r))" by (simp add: map_of_None_iff_keys)
  then have "k \<in> set (dict_keys (priv_legacy_sections r))"
    using assms(1) by (simp add: contains_iff)
  then obtain v where v: "map_of (priv_legacy_sections r) k = Some v"
    using map_of_None_iff_keys [of "priv_legacy_sections r" k] by (cases "map_of (priv_legacy_sections r) k") auto
  have p: "pop env r k None
      = Inr (v, r\<lparr>priv_legacy_sections := AList.delete k (priv_legacy_sections r)\<rparr>)"
    using None v by (simp add: pop_def)
  have a: "section_map r k = Some v" using v by (simp add: section_map_def map_add_def)
  have b: "section_map (r\<lparr>priv_legacy_sections := AList.delete k (priv_legacy_sections r)\<rparr>)
             = (section_map r)(k := None)"
    using None by (auto simp: section_map_def delete_conv' map_add_def fun_eq_iff split: option.splits)
  show ?thesis
    using p a b assms(2,3)
    by (auto simp: partitions_disjoint_def keys_distinct_def keys_delete distinct_keys_delete)
qed

lemma split_loop_maps:
  "partitions_disjoint r \<Longrightarrow> keys_distinct r \<Longrightarrow> partitions_disjoint s \<Longrightarrow> keys_distinct s \<Longrightarrow>
   distinct names \<Longrightarrow> set names \<subseteq> dom (section_map r) \<Longrightarrow>
   set names \<inter> dom (section_map s) = {} \<Longrightarrow>
   (\<forall>k v. k \<in> set names \<and> section_map r k = Some v \<longrightarrow> settled env (k, v)) \<Longrightarrow>
   \<exists>r' s'. split_loop env names (r, s) = Inr (r', s')
      \<and> partitions_disjoint r' \<and> keys_distinct r' \<and> partitions_disjoint s' \<and> keys_distinct s'
      \<and> section_map r' = section_map r |` (- set names)
      \<and> section_map s' = section_map s ++ (section_map r |` set names)"
proof (induction names arbitrary: r s)
  case Nil
  then show ?case by simp
next
  case (Cons n names)
  have cn: "contains r n" using Cons.prems(6) by (auto simp: dom_section_map)
  from pop_present_map [OF cn Cons.prems(1) Cons.prems(2), of env] obtain v r1 where
    p: "pop env r n None = Inr (v, r1)" and rv: "section_map r n = Some v"
    and r1: "section_map r1 = (section_map r)(n := None)"
    and gr1: "partitions_disjoint r1" "keys_distinct r1"
    by blast
  have idem: "settled env (n, v)" using Cons.prems(8) rv by simp
  have ns: "\<not> contains s n" using Cons.prems(7) by (auto simp: dom_section_map)
  from settled_setitem_map [OF idem ns Cons.prems(3) Cons.prems(4)] obtain s1 where
    s: "setitem env s n v = Inr s1" and gs1: "partitions_disjoint s1" "keys_distinct s1"
    and s1: "section_map s1 = (section_map s)(n \<mapsto> v)"
    by blast
  have dn: "distinct names" and nn: "n \<notin> set names" using Cons.prems(5) by simp_all
  have sub: "set names \<subseteq> dom (section_map r1)"
    using Cons.prems(6) nn by (auto simp: r1)
  have dis: "set names \<inter> dom (section_map s1) = {}"
    using Cons.prems(7) nn by (auto simp: s1)
  have idems: "\<forall>k v. k \<in> set names \<and> section_map r1 k = Some v \<longrightarrow> settled env (k, v)"
    using Cons.prems(8) by (auto simp: r1 split: if_splits)
  from Cons.IH [OF gr1 gs1 dn sub dis idems] obtain r' s' where
    loop: "split_loop env names (r1, s1) = Inr (r', s')"
    and g: "partitions_disjoint r'" "keys_distinct r'" "partitions_disjoint s'" "keys_distinct s'"
    and mr: "section_map r' = section_map r1 |` (- set names)"
    and ms: "section_map s' = section_map s1 ++ (section_map r1 |` set names)"
    by blast
  have l: "split_loop env (n # names) (r, s) = Inr (r', s')"
    using p s loop by simp
  have mr': "section_map r' = section_map r |` (- set (n # names))"
    by (auto simp: mr r1 restrict_map_def fun_eq_iff)
  have ms': "section_map s' = section_map s ++ (section_map r |` set (n # names))"
    using nn rv by (auto simp: ms s1 r1 restrict_map_def map_add_def fun_eq_iff split: option.splits)
  show ?case using l g mr' ms' by blast
qed

lemma setitem_loop_maps:
  "partitions_disjoint d \<Longrightarrow> keys_distinct d \<Longrightarrow> distinct (dict_keys kvs) \<Longrightarrow>
   set (dict_keys kvs) \<inter> dom (section_map d) = {} \<Longrightarrow> list_all (settled env) kvs \<Longrightarrow>
   \<exists>d'. setitem_loop env d kvs = (d', None) \<and> partitions_disjoint d' \<and> keys_distinct d'
      \<and> section_map d' = section_map d ++ map_of kvs"
proof (induction kvs arbitrary: d)
  case Nil
  then show ?case by simp
next
  case (Cons kv kvs)
  obtain k v where kv: "kv = (k, v)" by (cases kv)
  have idem: "settled env (k, v)" using Cons.prems(5) kv by simp
  have nc: "\<not> contains d k" using Cons.prems(4) kv by (auto simp: dom_section_map dict_keys_def)
  from settled_setitem_map [OF idem nc Cons.prems(1) Cons.prems(2)] obtain d1 where
    s: "setitem env d k v = Inr d1" and g1: "partitions_disjoint d1" "keys_distinct d1"
    and m1: "section_map d1 = (section_map d)(k \<mapsto> v)"
    by blast
  have dk: "distinct (dict_keys kvs)" and nk: "k \<notin> set (dict_keys kvs)"
    using Cons.prems(3) kv by (simp_all add: dict_keys_def)
  have dis: "set (dict_keys kvs) \<inter> dom (section_map d1) = {}"
    using Cons.prems(4) nk kv by (auto simp: m1 dict_keys_def)
  have idems: "list_all (settled env) kvs" using Cons.prems(5) by simp
  from Cons.IH [OF g1 dk dis idems] obtain d' where
    loop: "setitem_loop env d1 kvs = (d', None)" and g: "partitions_disjoint d'" "keys_distinct d'"
    and m: "section_map d' = section_map d1 ++ map_of kvs"
    by blast
  have nd: "map_of kvs k = None" using nk by (simp add: map_of_None_iff_keys)
  have meq: "section_map d' = section_map d ++ map_of (kv # kvs)"
    using nd kv by (auto simp: m m1 map_add_def fun_eq_iff split: option.splits)
  have l: "setitem_loop env d (kv # kvs) = (d', None)"
    using s loop kv by simp
  show ?case using l g meq by blast
qed

lemma map_of_sections:
  "keys_distinct d \<Longrightarrow> map_of (sections d) = section_map d"
  by (simp add: sections_def section_map_def keys_distinct_def map_of_dict_union)

lemma distinct_sections: "keys_distinct d \<Longrightarrow> distinct (dict_keys (sections d))"
  by (simp add: sections_def keys_distinct_def distinct_dict_union)

lemma dict_eq_map_of:
  assumes "distinct (dict_keys a)" and "distinct (dict_keys b)" and "map_of a = map_of b"
  shows "dict_eq a b"
proof -
  have da: "distinct (map fst a)" and db: "distinct (map fst b)"
    using assms(1,2) by (simp_all add: dict_keys_def)
  have "set a = set b" using da db assms(3) by (simp add: map_of_inject_set)
  moreover have "distinct a" and "distinct b"
    using da db by (simp_all add: distinct_map)
  ultimately have len: "length a = length b"
    by (metis distinct_card)
  have "map_of b (fst kv) = Some (snd kv)" if "kv \<in> set a" for kv
  proof -
    have "(fst kv, snd kv) \<in> set a" using that by simp
    then have "map_of a (fst kv) = Some (snd kv)"
      using da by (simp only: map_of_eq_Some_iff)
    then show ?thesis by (simp only: assms(3))
  qed
  then show ?thesis using len by (simp add: dict_eq_def list_all_iff)
qed

text \<open>
  C4. For an object whose two dictionaries share no name (and whose sections are
  settled) and for distinct names that are all set:
  \<open>split\<close> returns, combining the two objects it returns (either one into the
  other) returns, and the result has the sections of the original object, names and
  values (it is equal to it under \<open>__eq__\<close>).
\<close>

theorem split_then_combine:
  assumes "partitions_disjoint d" and "keys_distinct d"
    and "list_all (settled env) (items d)"
    and "set names \<subseteq> set (get_section_names d)" and "distinct names"
  shows "\<exists>root spl d' d''. split env d names = (d, Inr (root, spl))
           \<and> combine_sections env root (OtherInput spl) = (d', None)
           \<and> eq d' d
           \<and> set (get_section_names d') = set (get_section_names d)
           \<and> combine_sections env spl (OtherInput root) = (d'', None)
           \<and> eq d'' d"
proof -
  have items_map: "map_of (items d) = section_map d"
    using assms(2) by (simp add: items_def map_of_sections)
  have idem: "\<forall>k v. section_map d k = Some v \<longrightarrow> settled env (k, v)"
  proof (intro allI impI)
    fix k v assume "section_map d k = Some v"
    then have "(k, v) \<in> set (items d)"
      using items_map by (metis map_of_SomeD)
    then show "settled env (k, v)" using assms(3) by (simp add: list_all_iff)
  qed
  have sub: "set names \<subseteq> dom (section_map d)"
    using assms(4) by (auto simp: dom_section_map contains_names)
  have ge: "partitions_disjoint FourCInput_empty" "keys_distinct FourCInput_empty"
    by (simp_all add: partitions_disjoint_def keys_distinct_def FourCInput_empty_def dict_keys_def)
  from split_loop_maps [OF assms(1) assms(2) ge assms(5) sub, of env] idem obtain root spl where
    loop: "split_loop env names (d, FourCInput_empty) = Inr (root, spl)"
    and gr: "partitions_disjoint root" "keys_distinct root"
    and gs: "partitions_disjoint spl" "keys_distinct spl"
    and mr: "section_map root = section_map d |` (- set names)"
    and ms: "section_map spl = section_map d |` set names"
    by (auto simp: section_map_empty)
  have sp: "split env d names = (d, Inr (root, spl))"
    using loop by (simp add: split_def copy_def)
  have nocoll: "set (get_section_names root) \<inter> set (get_section_names spl) = {}"
  proof -
    have "dom (section_map root) \<inter> dom (section_map spl) = {}"
      by (auto simp: mr ms restrict_map_def split: if_splits)
    then show ?thesis by (auto simp: dom_section_map contains_names)
  qed
  then have "filter (\<lambda>n. n \<in> set (get_section_names spl)) (remdups (get_section_names root)) = []"
    by (auto simp: filter_empty_conv)
  then have comb: "combine_sections env root (OtherInput spl) = setitem_loop env root (items spl)"
    by (simp add: combine_sections_def Let_def overwrite_sections_def)
  have ims: "map_of (items spl) = section_map spl"
    using gs(2) by (simp add: items_def map_of_sections)
  have dks: "distinct (dict_keys (items spl))"
    using gs(2) by (simp add: items_def distinct_sections)
  have kdis: "set (dict_keys (items spl)) \<inter> dom (section_map root) = {}"
    using nocoll by (auto simp: dom_section_map contains_names contains_items [symmetric])
  have idems: "list_all (settled env) (items spl)"
  proof -
    have "settled env kv" if "kv \<in> set (items spl)" for kv
    proof -
      obtain k v where kv: "kv = (k, v)" by (cases kv)
      have "map_of (items spl) k = Some v"
        using that kv dks by (simp add: dict_keys_def)
      then have "section_map d k = Some v"
        by (auto simp: ims ms restrict_map_def split: if_splits)
      then show ?thesis using idem kv by simp
    qed
    then show ?thesis by (simp add: list_all_iff)
  qed
  from setitem_loop_maps [OF gr dks kdis idems] obtain d' where
    l: "setitem_loop env root (items spl) = (d', None)"
    and gd: "partitions_disjoint d'" "keys_distinct d'"
    and md: "section_map d' = section_map root ++ map_of (items spl)"
    by blast
  have same: "section_map d' = section_map d"
    by (auto simp: md ims mr ms restrict_map_def map_add_def fun_eq_iff split: option.splits)
  have e: "eq d' d"
    unfolding eq_def
    by (rule dict_eq_map_of)
       (simp_all add: distinct_sections gd assms(2) map_of_sections same)
  have n: "set (get_section_names d') = set (get_section_names d)"
  proof -
    have "dom (section_map d') = dom (section_map d)" using same by simp
    then show ?thesis by (auto simp: dom_section_map contains_names)
  qed
  have "filter (\<lambda>n. n \<in> set (get_section_names root)) (remdups (get_section_names spl)) = []"
    using nocoll by (auto simp: filter_empty_conv)
  then have comb2: "combine_sections env spl (OtherInput root) = setitem_loop env spl (items root)"
    by (simp add: combine_sections_def Let_def overwrite_sections_def)
  have imr: "map_of (items root) = section_map root"
    using gr(2) by (simp add: items_def map_of_sections)
  have dkr: "distinct (dict_keys (items root))"
    using gr(2) by (simp add: items_def distinct_sections)
  have kdis2: "set (dict_keys (items root)) \<inter> dom (section_map spl) = {}"
    using nocoll by (auto simp: dom_section_map contains_names contains_items [symmetric])
  have idemr: "list_all (settled env) (items root)"
  proof -
    have "settled env kv" if "kv \<in> set (items root)" for kv
    proof -
      obtain k v where kv: "kv = (k, v)" by (cases kv)
      have "map_of (items root) k = Some v"
        using that kv dkr by (simp add: dict_keys_def)
      then have "section_map d k = Some v"
        by (auto simp: imr mr restrict_map_def split: if_splits)
      then show ?thesis using idem kv by simp
    qed
    then show ?thesis by (simp add: list_all_iff)
  qed
  from setitem_loop_maps [OF gs dkr kdis2 idemr] obtain d'' where
    l2: "setitem_loop env spl (items root) = (d'', None)"
    and gd2: "partitions_disjoint d''" "keys_distinct d''"
    and md2: "section_map d'' = section_map spl ++ map_of (items root)"
    by blast
  have same2: "section_map d'' = section_map d"
    by (auto simp: md2 imr mr ms restrict_map_def map_add_def fun_eq_iff split: option.splits)
  have e2: "eq d'' d"
    unfolding eq_def
    by (rule dict_eq_map_of)
       (simp_all add: distinct_sections gd2 assms(2) map_of_sections same2)
  show ?thesis using sp comb l e n comb2 l2 e2 by auto
qed


lemma example_split_hypotheses:
  "partitions_disjoint example_document \<and> keys_distinct example_document
   \<and> list_all (settled example_env) (items example_document)
   \<and> set [''PARTICLES''] \<subseteq> set (get_section_names example_document)
   \<and> distinct [''PARTICLES'']"
  by code_simp

lemma example_split_remainder:
  "split example_env example_document [''PARTICLES'']
     = (example_document, Inr (example_remainder, example_particles))"
  by code_simp

lemma example_recombine:
  "combine_sections example_env example_remainder (OtherInput example_particles)
     = (example_document, None)"
  by code_simp

theorem split_then_combine_witness:
  "partitions_disjoint example_document \<and> keys_distinct example_document
   \<and> list_all (settled example_env) (items example_document)
   \<and> set [''PARTICLES''] \<subseteq> set (get_section_names example_document)
   \<and> distinct [''PARTICLES'']
   \<and> split example_env example_document [''PARTICLES'']
        = (example_document, Inr (example_remainder, example_particles))
   \<and> combine_sections example_env example_remainder (OtherInput example_particles)
        = (example_document, None)
   \<and> eq (fst (combine_sections example_env example_remainder (OtherInput example_particles)))
        example_document
   \<and> eq (fst (combine_sections example_env example_particles (OtherInput example_remainder)))
        example_document"
proof -
  note h = example_split_hypotheses
  from split_then_combine [of example_document example_env "[''PARTICLES'']"] h
  obtain root spl d' d'' where
    "split example_env example_document [''PARTICLES''] = (example_document, Inr (root, spl))"
    and "combine_sections example_env root (OtherInput spl) = (d', None)"
    and "eq d' example_document"
    and "combine_sections example_env spl (OtherInput root) = (d'', None)"
    and "eq d'' example_document"
    by blast
  then have "eq (fst (combine_sections example_env example_remainder (OtherInput example_particles)))
        example_document
      \<and> eq (fst (combine_sections example_env example_particles (OtherInput example_remainder)))
        example_document"
    using example_split_remainder by simp
  then show ?thesis using h example_split_remainder example_recombine by blast
qed

subsection \<open>Objects built through the methods\<close>

text \<open>
  With regular collaborators, every object built by the constructor and changed by
  calls of the methods has distinct keys and settled sections: the side conditions of
  the two theorems above hold for it.
\<close>

lemma list_all_update: "list_all P al \<Longrightarrow> P (k, v) \<Longrightarrow> list_all P (AList.update k v al)"
  by (induction al) auto

lemma list_all_delete: "list_all P al \<Longrightarrow> list_all P (AList.delete k al)"
  by (induction al) auto

lemma setitem_Inr_settled:
  assumes "regular_collaborators env" and "setitem env d k v = Inr d'"
  shows "\<exists>w. settled env (k, w)
           \<and> (d' = d\<lparr>priv_sections := AList.update k w (priv_sections d)\<rparr>
              \<or> d' = d\<lparr>priv_legacy_sections := AList.update k w (priv_legacy_sections d)\<rparr>)"
proof -
  obtain c where c: "type_converter env v = Inr c"
    using assms(2) by (auto simp: setitem_def split: sum.splits)
  have cc: "type_converter env c = Inr c"
    using assms(1) c by (auto simp: regular_collaborators_def)
  show ?thesis
  proof (cases "is_section_known env k")
    case True
    then have "d' = d\<lparr>priv_sections := AList.update k c (priv_sections d)\<rparr>"
      using assms(2) c by (simp add: setitem_def)
    moreover have "settled env (k, c)" using True cc by (simp add: settled_def)
    ultimately show ?thesis by blast
  next
    case False
    have leg: "k \<in> set (LEGACY_SECTIONS env)"
      using assms(2) c False by (auto simp: setitem_def split: sum.splits if_splits)
    show ?thesis
    proof (cases "\<exists>xs. c = PList xs \<and> \<not> list_ex is_dict xs")
      case True
      then obtain xs where xs: "c = PList xs" "\<not> list_ex is_dict xs" by blast
      from assms(2) c False leg xs obtain r where
        r: "interpret_legacy_section env k xs = Inr r"
        and d': "d' = d\<lparr>priv_legacy_sections := AList.update k r (priv_legacy_sections d)\<rparr>"
        by (auto simp: setitem_def split: sum.splits)
      have "settled env (k, r)"
        using assms(1) leg False r by (auto simp: regular_collaborators_def)
      then show ?thesis using d' by blast
    next
      case no: False
      then have d': "d' = d\<lparr>priv_legacy_sections := AList.update k c (priv_legacy_sections d)\<rparr>"
        and shape: "is_dict c \<or> (\<exists>xs. c = PList xs \<and> list_ex is_dict xs)"
        using assms(2) c False leg by (cases c; auto simp: setitem_def split: if_splits)+
      have "settled env (k, c)"
        using shape cc leg by (cases c) (auto simp: settled_def)
      then show ?thesis using d' by blast
    qed
  qed
qed

lemma tidy_empty: "tidy env FourCInput_empty"
  by (simp add: tidy_def keys_distinct_def FourCInput_empty_def dict_keys_def)

lemma tidy_setitem:
  assumes "regular_collaborators env" and "tidy env d" and "setitem env d k v = Inr d'"
  shows "tidy env d'"
  using setitem_Inr_settled [OF assms(1,3)] assms(2)
  by (auto simp: tidy_def keys_distinct_def distinct_keys_update list_all_update)

lemma tidy_pop:
  assumes "tidy env d" and "pop env d k dv = Inr (v, d')"
  shows "tidy env d'"
  using pop_Inr_cases [OF assms(2)] assms(1)
  by (auto simp: tidy_def keys_distinct_def distinct_keys_delete list_all_delete)

lemma tidy_setitem_loop:
  "regular_collaborators env \<Longrightarrow> tidy env d \<Longrightarrow> tidy env (fst (setitem_loop env d kvs))"
proof (induction kvs arbitrary: d)
  case Nil
  then show ?case by simp
next
  case (Cons kv kvs)
  obtain k v where kv: "kv = (k, v)" by (cases kv)
  show ?case
  proof (cases "setitem env d k v")
    case (Inl e)
    then show ?thesis using Cons.prems kv by simp
  next
    case (Inr d1)
    then show ?thesis
      using Cons.IH [OF Cons.prems(1) tidy_setitem [OF Cons.prems(1) Cons.prems(2) Inr]] kv
      by simp
  qed
qed

lemma tidy_overwrite:
  "regular_collaborators env \<Longrightarrow> tidy env d \<Longrightarrow> tidy env (fst (overwrite_sections env d other))"
  by (cases other) (simp_all add: overwrite_sections_def tidy_setitem_loop)

lemma tidy_combine:
  "regular_collaborators env \<Longrightarrow> tidy env d \<Longrightarrow> tidy env (fst (combine_sections env d other))"
  by (cases other) (simp_all add: combine_sections_def Let_def tidy_overwrite)

lemma tidy_apply_operation:
  assumes "regular_collaborators env" and "tidy env d"
  shows "tidy env (apply_operation env d operation)"
proof (cases operation)
  case (Set k v)
  then show ?thesis using assms by (auto simp: tidy_setitem split: sum.splits)
next
  case (Pop k dv)
  then show ?thesis using assms by (auto simp: tidy_pop split: sum.splits)
next
  case (Combine other)
  then show ?thesis using assms by (simp add: tidy_combine)
next
  case (Overwrite other)
  then show ?thesis using assms by (simp add: tidy_overwrite)
next
  case (Split names)
  then show ?thesis using assms by (simp add: split_def)
qed

lemma tidy_init:
  assumes "regular_collaborators env" and "FourCInput_init env s = Inr d"
  shows "tidy env d"
proof (cases s)
  case None
  then show ?thesis using assms(2) by (simp add: FourCInput_init_def tidy_empty)
next
  case (Some kvs)
  have "tidy env (fst (setitem_loop env FourCInput_empty kvs))"
    by (rule tidy_setitem_loop [OF assms(1) tidy_empty])
  then show ?thesis using assms(2) Some
    by (auto simp: FourCInput_init_def split: prod.splits option.splits)
qed

lemma tidy_run:
  "regular_collaborators env \<Longrightarrow> tidy env d \<Longrightarrow> tidy env (foldl (apply_operation env) d ops)"
  by (induction ops arbitrary: d) (simp_all add: tidy_apply_operation)

lemma set_update_subset: "set (AList.update k v al) \<subseteq> insert (k, v) (set al)"
  by (induction al) auto

lemma set_dict_union_subset: "set (dict_union a b) \<subseteq> set a \<union> set b"
proof (induction b arbitrary: a)
  case Nil
  then show ?case by (simp add: dict_union_Nil)
next
  case (Cons kv b)
  obtain k v where kv: "kv = (k, v)" by (cases kv)
  show ?case
    using Cons.IH [of "AList.update k v a"] set_update_subset [of k v a] kv
    by (auto simp: dict_union_Cons)
qed

lemma tidy_items: "tidy env d \<Longrightarrow> list_all (settled env) (items d)"
  using set_dict_union_subset [of "priv_sections d" "priv_legacy_sections d"]
  by (auto simp: tidy_def items_def sections_def list_all_iff)

lemma constructed_object_settled:
  assumes "regular_collaborators env" and "FourCInput_init env s = Inr d0"
  shows "partitions_disjoint (foldl (apply_operation env) d0 ops)
       \<and> keys_distinct (foldl (apply_operation env) d0 ops)
       \<and> distinct (dict_keys (items (foldl (apply_operation env) d0 ops)))
       \<and> list_all (settled env) (items (foldl (apply_operation env) d0 ops))"
proof -
  let ?d = "foldl (apply_operation env) d0 ops"
  have t: "tidy env ?d"
    by (rule tidy_run [OF assms(1) tidy_init [OF assms]])
  have w: "well_classified env ?d"
    by (rule well_classified_run [OF well_classified_init [OF assms(2)]])
  have k: "keys_distinct ?d" using t by (simp add: tidy_def)
  show ?thesis
    using well_classified_disjoint [OF w] k tidy_items [OF t] distinct_sections [OF k]
    by (simp add: items_def)
qed

text \<open>The collaborators of the example catalog are regular.\<close>

lemma iterate_and_evaluate_results:
  "iterate_and_evaluate f xs = Inr rs \<Longrightarrow> \<forall>r \<in> set rs. \<exists>x. f x = Inr r"
  by (induction xs arbitrary: rs) (auto split: sum.splits)

lemma example_read_particle_dict: "example_read_particle x = Inr r \<Longrightarrow> is_dict r"
  by (auto simp: example_read_particle_def split: pyval.splits list.splits option.splits if_splits)

lemma example_regular: "regular_collaborators example_env"
proof -
  have conv: "\<And>v. type_converter example_env v = Inr v" by (simp add: example_env_def)
  have "settled example_env (k, r)"
    if k: "k \<in> set (LEGACY_SECTIONS example_env)" and nk: "\<not> is_section_known example_env k"
      and i: "interpret_legacy_section example_env k xs = Inr r" for k xs r
  proof -
    from k have kk: "k = ''PARTICLES'' \<or> k = ''NODE COORDS''" by (simp add: example_env_def)
    from i kk obtain f rs where f: "iterate_and_evaluate f xs = Inr rs" and r: "r = PList rs"
      and fd: "\<forall>x y. f x = Inr y \<longrightarrow> is_dict y"
      and again: "interpret_legacy_section example_env k [] = Inr (PList [])"
      by (auto simp: interpret_legacy_section_def as_list_def example_env_def
               dest: example_read_particle_dict split: sum.splits if_splits)
    have "list_ex is_dict rs \<or> rs = []"
      using iterate_and_evaluate_results [OF f] fd by (cases rs) auto
    then show ?thesis using r again k conv by (auto simp: settled_def)
  qed
  then show ?thesis using conv by (auto simp: regular_collaborators_def)
qed

end
